theory Spec2Isabelle
  imports Complex_Main "HOL-Library.Sublist"
begin

section \<open>The download orchestrator of \<^verbatim>\<open>download.py\<close>\<close>

text \<open>
  The module has three functions: \<^verbatim>\<open>dataset_has_depth\<close>, \<^verbatim>\<open>download_copernicus\<close> and
  \<^verbatim>\<open>run\<close>. All of them act on the outside world: they read \<^verbatim>\<open>os.environ\<close>, create
  directories, start the external \<^verbatim>\<open>copernicusmarine\<close> tool and write log records.
  The embedding threads a \<open>world\<close> record through every function and takes the parts of
  the world that the module does not own (what a started process does, whether a directory
  can be created, how Python prints a number or an exception, the JSON parser) as the
  fields of a \<open>system\<close> record. Every theorem below holds for every such system.
\<close>

subsection \<open>Python values, exceptions and the world\<close>

text \<open>
  What \<^verbatim>\<open>subprocess.run\<close> can do: the process exits with a status, having written some
  text to its standard output, or the call itself raises (for instance because the tool is
  not installed); the string is \<^verbatim>\<open>str(e)\<close> of that exception.
\<close>

datatype proc_outcome = Exited int string | RunRaised string

datatype level = INFO | ERROR

text \<open>
  The trace of observable actions, oldest first. A \<open>Run\<close> event keeps the argument list
  and what the process did.
\<close>

datatype event = Log level string | MkDir string | Run "string list" proc_outcome

datatype py_exn =
    KeyError string
  | OSError string
  | CalledProcessError "string list" int
  | OtherError string
  | JSONDecodeError
  | AttributeError
  | TypeError
  | Exception string

text \<open>The value \<^verbatim>\<open>json.loads\<close> returns; an object keeps its pairs in document order.\<close>

datatype json =
    JNull
  | JBool bool
  | JNum string
  | JStr string
  | JArr "json list"
  | JObj "(string \<times> json) list"

record world =
  environ :: "string \<rightharpoonup> string"
  dirs :: "string set"
  events :: "event list"

text \<open>
  The collaborators. \<open>py_str\<close> is Python's \<^verbatim>\<open>str\<close> on the values stored in the
  boundary box. \<open>makedirs_raises\<close> and \<open>subprocess_run\<close> may depend on everything that
  happened before (the trace) and on their argument. \<open>called_process_error_str\<close> is
  \<^verbatim>\<open>str(e)\<close> of a \<^verbatim>\<open>CalledProcessError\<close>; \<open>json_loads\<close> answers \<open>None\<close> where
  \<^verbatim>\<open>json.loads\<close> raises.
\<close>

record 'v system =
  py_str :: "'v \<Rightarrow> string"
  makedirs_raises :: "event list \<Rightarrow> string \<Rightarrow> bool"
  subprocess_run :: "event list \<Rightarrow> string list \<Rightarrow> proc_outcome"
  called_process_error_str :: "string list \<Rightarrow> int \<Rightarrow> string"
  json_loads :: "string \<Rightarrow> json option"

subsection \<open>Library functions the module calls\<close>

text \<open>\<^verbatim>\<open>logging.info\<close> and \<^verbatim>\<open>logging.error\<close>: one more record in the trace.\<close>

definition logging :: "level \<Rightarrow> string \<Rightarrow> world \<Rightarrow> world" where
  "logging l msg w = w\<lparr>events := events w @ [Log l msg]\<rparr>"

text \<open>\<^verbatim>\<open>str\<close> of a Python \<^verbatim>\<open>int\<close>, as an f-string prints it: decimal, with a minus sign.\<close>

fun str_nat :: "nat \<Rightarrow> string" where
  "str_nat n =
     (if n < 10 then [''0123456789'' ! n]
      else str_nat (n div 10) @ [''0123456789'' ! (n mod 10)])"

declare str_nat.simps [simp del]

definition str_int :: "int \<Rightarrow> string" where
  "str_int i = (if i < 0 then CHR ''-'' # str_nat (nat (- i)) else str_nat (nat i))"

text \<open>\<^verbatim>\<open>os.path.join\<close> of two components (the POSIX rules).\<close>

definition path_join :: "string \<Rightarrow> string \<Rightarrow> string" where
  "path_join a b =
     (if take 1 b = ''/'' then b
      else if a = [] \<or> last a = CHR ''/'' then a @ b
      else a @ ''/'' @ b)"

text \<open>
  The directories \<^verbatim>\<open>os.makedirs\<close> ensures for a path: the path and each of its ancestors,
  \<open>acc\<close> being the part of the path already read.
\<close>

fun path_prefixes :: "string \<Rightarrow> string \<Rightarrow> string list" where
  "path_prefixes acc [] = [acc]"
| "path_prefixes acc (c # cs) =
     (if c = CHR ''/'' \<and> acc \<noteq> [] then acc # path_prefixes (acc @ [c]) cs
      else path_prefixes (acc @ [c]) cs)"

text \<open>
  \<^verbatim>\<open>os.makedirs(path, exist_ok=True)\<close>: raises \<^verbatim>\<open>OSError\<close> where the system says so,
  otherwise the path and its ancestors are directories afterwards; those that were
  directories already stay as they are. Which ancestors a raising call had created
  before it raised is not tracked.
\<close>

definition makedirs :: "'v system \<Rightarrow> string \<Rightarrow> world \<Rightarrow> py_exn + world" where
  "makedirs sys path w =
     (if makedirs_raises sys (events w) path then Inl (OSError path)
      else Inr (w\<lparr>dirs := dirs w \<union> set (path_prefixes [] path),
                  events := events w @ [MkDir path]\<rparr>))"

text \<open>
  \<^verbatim>\<open>subprocess.run(cmd, ...)\<close>: the system decides the outcome from the trace so far and
  the command; the invocation is recorded.
\<close>

definition subprocess_run_in :: "'v system \<Rightarrow> string list \<Rightarrow> world \<Rightarrow> proc_outcome \<times> world" where
  "subprocess_run_in sys cmd w =
     (let oc = subprocess_run sys (events w) cmd
      in (oc, w\<lparr>events := events w @ [Run cmd oc]\<rparr>))"

text \<open>\<^verbatim>\<open>d.get(k)\<close> on a parsed JSON object: the last pair of a repeated key wins.\<close>

definition dict_get :: "(string \<times> json) list \<Rightarrow> string \<Rightarrow> json option" where
  "dict_get kvs k = map_of (rev kvs) k"

text \<open>\<^verbatim>\<open>repr\<close> of a key, as \<^verbatim>\<open>str\<close> of a \<^verbatim>\<open>KeyError\<close> prints it.\<close>

definition quoted :: "string \<Rightarrow> string" where
  "quoted k = [char_of (39::nat)] @ k @ [char_of (39::nat)]"

subsection \<open>\<^verbatim>\<open>dataset_has_depth\<close>\<close>

text \<open>
  With \<^verbatim>\<open>check=True\<close> a non-zero status raises \<^verbatim>\<open>CalledProcessError\<close>; nothing in the
  function catches anything. \<^verbatim>\<open>metadata.get\<close> exists only on a dict, and \<^verbatim>\<open>in\<close> is key
  membership on a dict, element membership on a list, substring search on a string and a
  \<^verbatim>\<open>TypeError\<close> on every other JSON value.
\<close>

definition py_in_depth :: "json \<Rightarrow> py_exn + bool" where
  "py_in_depth dimensions =
     (case dimensions of
        JObj dims \<Rightarrow> Inr (''depth'' \<in> fst ` set dims)
      | JArr xs \<Rightarrow> Inr (JStr ''depth'' \<in> set xs)
      | JStr s \<Rightarrow> Inr (sublist ''depth'' s)
      | _ \<Rightarrow> Inl TypeError)"

definition dataset_has_depth ::
  "'v system \<Rightarrow> string \<Rightarrow> world \<Rightarrow> (py_exn + bool) \<times> world" where
  "dataset_has_depth sys dataset_id w =
     (let cmd = [''copernicusmarine'', ''describe'', ''--dataset-id'', dataset_id];
          (oc, w1) = subprocess_run_in sys cmd w
      in case oc of
           RunRaised msg \<Rightarrow> (Inl (OtherError msg), w1)
         | Exited rc out \<Rightarrow>
             if rc \<noteq> 0 then (Inl (CalledProcessError cmd rc), w1)
             else (case json_loads sys out of
                     None \<Rightarrow> (Inl JSONDecodeError, w1)
                   | Some metadata \<Rightarrow>
                       (case metadata of
                          JObj kvs \<Rightarrow>
                            (py_in_depth
                               (case dict_get kvs ''dimensions'' of
                                  None \<Rightarrow> JObj []
                                | Some d \<Rightarrow> d), w1)
                        | _ \<Rightarrow> (Inl AttributeError, w1))))"

subsection \<open>\<^verbatim>\<open>download_copernicus\<close>\<close>

definition dataset_ids :: "int \<Rightarrow> string list" where
  "dataset_ids year =
     (if year = 2021
      then [''cmems_mod_glo_phy_myint_0.083deg_P1D-m'', ''cmems_mod_glo_bgc_my_0.25deg_P1D-m'']
      else [''cmems_mod_glo_phy_my_0.083deg_P1D-m'', ''cmems_mod_glo_bgc_my_0.25deg_P1D-m''])"

text \<open>The locals of the function that the loop reads.\<close>

record 'v locals =
  lat_min :: 'v
  lat_max :: 'v
  lon_min :: 'v
  lon_max :: 'v
  start_datetime :: string
  end_datetime :: string

text \<open>Lines 35 to 41: the four values of the boundary box and the two datetimes.\<close>

definition locals_of :: "'v \<Rightarrow> 'v \<Rightarrow> 'v \<Rightarrow> 'v \<Rightarrow> int \<Rightarrow> 'v locals" where
  "locals_of la_min la_max lo_min lo_max year =
     \<lparr>lat_min = la_min, lat_max = la_max, lon_min = lo_min, lon_max = lo_max,
      start_datetime = str_int year @ ''-08-01T00:00:00'',
      end_datetime = str_int year @ ''-10-31T23:59:59''\<rparr>"

text \<open>
  The list \<^verbatim>\<open>cmd\<close> of lines 61 to 80, given the two values read from
  \<^verbatim>\<open>os.environ\<close>.
\<close>

definition subset_cmd ::
  "'v system \<Rightarrow> 'v locals \<Rightarrow> string \<Rightarrow> string \<Rightarrow> string \<Rightarrow> string \<Rightarrow> string list" where
  "subset_cmd sys lc dataset_id dataset_output_dir username password =
     [''copernicusmarine'', ''subset'',
      ''--dataset-id='' @ dataset_id,
      ''--minimum-longitude'', py_str sys (lon_min lc),
      ''--maximum-longitude'', py_str sys (lon_max lc),
      ''--minimum-latitude'', py_str sys (lat_min lc),
      ''--maximum-latitude'', py_str sys (lat_max lc),
      ''--file-format'', ''netcdf'',
      ''--output-directory'', dataset_output_dir,
      ''--start-datetime'', start_datetime lc,
      ''--end-datetime'', end_datetime lc,
      ''--overwrite'',
      ''--username'', username,
      ''--password'', password]
     @ (if dataset_id = ''cmems_mod_glo_bgc_my_0.25deg_P1D-m''
        then [''--minimum-depth'', ''0.5057600140571594'',
              ''--maximum-depth'', ''0.5057600140571594'']
        else [''--minimum-depth'', ''0.49402499198913574'',
              ''--maximum-depth'', ''0.49402499198913574''])"

text \<open>
  Building the list inside the \<^verbatim>\<open>try\<close>: each look-up in \<^verbatim>\<open>os.environ\<close> raises
  \<^verbatim>\<open>KeyError\<close> on a missing name.
\<close>

definition build_cmd ::
  "'v system \<Rightarrow> 'v locals \<Rightarrow> string \<Rightarrow> string \<Rightarrow> world \<Rightarrow> py_exn + string list" where
  "build_cmd sys lc dataset_id dataset_output_dir w =
     (case environ w ''CMEMS_USERNAME'' of
        None \<Rightarrow> Inl (KeyError ''CMEMS_USERNAME'')
      | Some username \<Rightarrow>
     (case environ w ''CMEMS_PASSWORD'' of
        None \<Rightarrow> Inl (KeyError ''CMEMS_PASSWORD'')
      | Some password \<Rightarrow>
          Inr (subset_cmd sys lc dataset_id dataset_output_dir username password)))"

text \<open>
  One pass of the loop of lines 53 to 91. The answer \<open>None\<close> means that the loop goes on
  with the next dataset; \<open>Some r\<close> means that the function is left with \<open>r\<close>: a returned
  boolean, or the \<^verbatim>\<open>OSError\<close> of \<^verbatim>\<open>os.makedirs\<close>, which is outside the \<^verbatim>\<open>try\<close>.
\<close>

definition download_dataset ::
  "'v system \<Rightarrow> 'v locals \<Rightarrow> string \<Rightarrow> world \<Rightarrow> (py_exn + bool) option \<times> world" where
  "download_dataset sys lc dataset_id w =
     (let w1 = logging INFO (''Downloading dataset: '' @ dataset_id) w;
          dataset_output_dir = path_join ''data'' dataset_id
      in case makedirs sys dataset_output_dir w1 of
           Inl e \<Rightarrow> (Some (Inl e), w1)
         | Inr w2 \<Rightarrow>
             (case build_cmd sys lc dataset_id dataset_output_dir w2 of
                Inl e \<Rightarrow>
                  (Some (Inr False),
                   logging ERROR
                     (''Unexpected error downloading dataset '' @ dataset_id @ '': '' @
                        (case e of KeyError k \<Rightarrow> quoted k | _ \<Rightarrow> [])) w2)
              | Inr cmd \<Rightarrow>
                  (let (oc, w3) = subprocess_run_in sys cmd w2
                   in case oc of
                        Exited rc out \<Rightarrow>
                          if rc = 0
                          then (None,
                                logging INFO
                                  (''Successfully downloaded dataset: '' @ dataset_id) w3)
                          else (Some (Inr False),
                                logging ERROR
                                  (''Error downloading dataset '' @ dataset_id @ '': '' @
                                     called_process_error_str sys cmd rc) w3)
                      | RunRaised msg \<Rightarrow>
                          (Some (Inr False),
                           logging ERROR
                             (''Unexpected error downloading dataset '' @ dataset_id @
                                '': '' @ msg) w3))))"

fun download_loop ::
  "'v system \<Rightarrow> 'v locals \<Rightarrow> string list \<Rightarrow> world \<Rightarrow> (py_exn + bool) \<times> world" where
  "download_loop sys lc [] w =
     (Inr True, logging INFO ''Completed all Copernicus data downloads'' w)"
| "download_loop sys lc (dataset_id # rest) w =
     (case download_dataset sys lc dataset_id w of
        (Some r, w') \<Rightarrow> (r, w')
      | (None, w') \<Rightarrow> download_loop sys lc rest w')"

text \<open>
  The boundary box is a dict; \<^verbatim>\<open>boundary_box[k]\<close> raises \<^verbatim>\<open>KeyError\<close> on a missing
  key. The four look-ups come before the first log record and before the check of the
  credentials. The list \<^verbatim>\<open>no_depth_datasets\<close> of line 50 is never read.
\<close>

definition download_copernicus ::
  "'v system \<Rightarrow> (string \<rightharpoonup> 'v) \<Rightarrow> int \<Rightarrow> world \<Rightarrow> (py_exn + bool) \<times> world" where
  "download_copernicus sys boundary_box year w =
     (case boundary_box ''lat_min'' of
        None \<Rightarrow> (Inl (KeyError ''lat_min''), w)
      | Some la_min \<Rightarrow>
     (case boundary_box ''lat_max'' of
        None \<Rightarrow> (Inl (KeyError ''lat_max''), w)
      | Some la_max \<Rightarrow>
     (case boundary_box ''lon_min'' of
        None \<Rightarrow> (Inl (KeyError ''lon_min''), w)
      | Some lo_min \<Rightarrow>
     (case boundary_box ''lon_max'' of
        None \<Rightarrow> (Inl (KeyError ''lon_max''), w)
      | Some lo_max \<Rightarrow>
          (let lc = locals_of la_min la_max lo_min lo_max year;
               w1 = logging INFO
                      (''Starting Copernicus data download for '' @ str_int year) w
           in if environ w1 ''CMEMS_USERNAME'' = None \<or> environ w1 ''CMEMS_PASSWORD'' = None
              then (Inr False,
                    logging ERROR
                      ''Copernicus Marine credentials not found in environment variables'' w1)
              else download_loop sys lc (dataset_ids year) w1)))))"

subsection \<open>\<^verbatim>\<open>run\<close>\<close>

definition boundary_box_of_run :: "string \<rightharpoonup> real" where
  "boundary_box_of_run =
     [''lat_min'' \<mapsto> 24, ''lat_max'' \<mapsto> 31, ''lon_min'' \<mapsto> - 92, ''lon_max'' \<mapsto> - 86]"

definition years_of_run :: "int list" where
  "years_of_run = [2005, 2006, 2012, 2013, 2015, 2021]"

text \<open>
  The loop of lines 121 to 124: an exception of the call goes through, a returned
  \<^verbatim>\<open>False\<close> raises \<^verbatim>\<open>Exception\<close> with the year in its message.
\<close>

fun run_loop ::
  "real system \<Rightarrow> (string \<rightharpoonup> real) \<Rightarrow> int list \<Rightarrow> world \<Rightarrow> (py_exn + unit) \<times> world" where
  "run_loop sys boundary_box [] w =
     (Inr (), logging INFO ''Completed Copernicus data download module'' w)"
| "run_loop sys boundary_box (year # rest) w =
     (case download_copernicus sys boundary_box year w of
        (Inl e, w') \<Rightarrow> (Inl e, w')
      | (Inr success, w') \<Rightarrow>
          if \<not> success
          then (Inl (Exception (''Failed to download Copernicus data for '' @ str_int year)), w')
          else run_loop sys boundary_box rest w')"

definition run :: "real system \<Rightarrow> world \<Rightarrow> (py_exn + unit) \<times> world" where
  "run sys w =
     run_loop sys boundary_box_of_run years_of_run
       (logging INFO ''Starting Copernicus data download module'' w)"


subsection \<open>Reading the trace\<close>

text \<open>The processes started, with what each did, in order.\<close>

fun runs_of :: "event list \<Rightarrow> (string list \<times> proc_outcome) list" where
  "runs_of [] = []"
| "runs_of (Run c oc # es) = (c, oc) # runs_of es"
| "runs_of (Log l m # es) = runs_of es"
| "runs_of (MkDir p # es) = runs_of es"

text \<open>The trace without its log records.\<close>

fun actions_of :: "event list \<Rightarrow> event list" where
  "actions_of [] = []"
| "actions_of (Log l m # es) = actions_of es"
| "actions_of (e # es) = e # actions_of es"

text \<open>What a call added to the trace, \<open>w\<close> being the world before and \<open>w'\<close> the one after.\<close>

definition new_events :: "world \<Rightarrow> world \<Rightarrow> event list" where
  "new_events w w' = drop (length (events w)) (events w')"

text \<open>The argument lists of the processes that one call of \<open>download_copernicus\<close> starts.\<close>

definition invoked :: "'v system \<Rightarrow> (string \<rightharpoonup> 'v) \<Rightarrow> int \<Rightarrow> world \<Rightarrow> string list list" where
  "invoked sys boundary_box year w =
     map fst (runs_of (new_events w (snd (download_copernicus sys boundary_box year w))))"

text \<open>A process that ran and exited with status zero.\<close>

fun exit_ok :: "proc_outcome \<Rightarrow> bool" where
  "exit_ok (Exited rc out) = (rc = 0)"
| "exit_ok (RunRaised msg) = False"

text \<open>
  The behaviours of the loop over the datasets, as a relation between the list of
  datasets, the actions taken and the way the function is left: \<open>dir\<close> and \<open>cmd\<close> give the
  directory and the argument list of a dataset.
\<close>

inductive loop_trace ::
  "(string \<Rightarrow> string) \<Rightarrow> (string \<Rightarrow> string list) \<Rightarrow> string list \<Rightarrow> event list \<Rightarrow> py_exn + bool \<Rightarrow> bool"
  for dir :: "string \<Rightarrow> string" and cmd :: "string \<Rightarrow> string list" where
  all_done: "loop_trace dir cmd [] [] (Inr True)"
| mkdir_raised: "loop_trace dir cmd (i # rest) [] (Inl (OSError (dir i)))"
| run_failed:
    "\<not> exit_ok oc \<Longrightarrow> loop_trace dir cmd (i # rest) [MkDir (dir i), Run (cmd i) oc] (Inr False)"
| run_passed:
    "exit_ok oc \<Longrightarrow> loop_trace dir cmd rest acts r \<Longrightarrow>
     loop_trace dir cmd (i # rest) (MkDir (dir i) # Run (cmd i) oc # acts) r"

code_pred loop_trace .

text \<open>The directories that the \<open>MkDir\<close> events of a trace ensure.\<close>

fun dirs_made :: "event list \<Rightarrow> string set" where
  "dirs_made [] = {}"
| "dirs_made (MkDir p # es) = set (path_prefixes [] p) \<union> dirs_made es"
| "dirs_made (e # es) = dirs_made es"

subsection \<open>A sample system and a sample world\<close>

text \<open>
  A system in which every started process has the outcome \<open>oc\<close>, the JSON parser answers
  \<open>js\<close> and every directory can be created, and a world that holds both credentials.
\<close>

definition sample_system :: "proc_outcome \<Rightarrow> json option \<Rightarrow> real system" where
  "sample_system oc js =
     \<lparr>py_str = (\<lambda>x. if x = 24 then ''24.0'' else if x = 31 then ''31.0''
                     else if x = - 92 then ''-92.0'' else ''-86.0''),
      makedirs_raises = (\<lambda>evs path. False),
      subprocess_run = (\<lambda>evs cmd. oc),
      called_process_error_str = (\<lambda>cmd rc. ''non-zero exit status''),
      json_loads = (\<lambda>out. js)\<rparr>"

definition sample_world :: world where
  "sample_world =
     \<lparr>environ = [''CMEMS_USERNAME'' \<mapsto> ''user'', ''CMEMS_PASSWORD'' \<mapsto> ''secret''],
      dirs = {}, events = []\<rparr>"

text \<open>A world in which the two credentials are as given and nothing else is set.\<close>

definition bare_world :: "string option \<Rightarrow> string option \<Rightarrow> world" where
  "bare_world u p =
     \<lparr>environ = (\<lambda>k. if k = ''CMEMS_USERNAME'' then u
                       else if k = ''CMEMS_PASSWORD'' then p else None),
      dirs = {}, events = []\<rparr>"

text \<open>
  The world in which \<open>run\<close> calls \<open>download_copernicus\<close> for the year at position \<open>k\<close>
  of its list, when the calls for the years before it have all been made.
\<close>

definition world_before :: "real system \<Rightarrow> world \<Rightarrow> nat \<Rightarrow> world" where
  "world_before sys w k =
     fold (\<lambda>year v. snd (download_copernicus sys boundary_box_of_run year v))
       (take k years_of_run)
       (logging INFO ''Starting Copernicus data download module'' w)"

section \<open>Properties\<close>

subsection \<open>The decimal rendering of a year\<close>

text \<open>Reading the digits of \<open>str_nat n\<close> as a decimal numeral gives \<open>n\<close> back.\<close>

lemma digit_char_value:
  assumes "(n::nat) < 10"
  shows "(of_char (''0123456789'' ! n) :: nat) = 48 + n"
proof -
  have "list_all (\<lambda>k. (of_char (''0123456789'' ! k) :: nat) = 48 + k) [0..<10]"
    by code_simp
  with assms show ?thesis by (simp add: list_all_iff)
qed

lemma str_nat_decimal:
  "foldl (\<lambda>a c. 10 * a + (of_char c - 48)) (0::nat) (str_nat n) = n"
proof (induction n rule: str_nat.induct)
  case (1 n)
  show ?case
  proof (cases "n < 10")
    case True
    then show ?thesis by (simp add: str_nat.simps [of n] digit_char_value)
  next
    case False
    have "n mod 10 < 10" by simp
    with False 1 show ?thesis
      by (simp add: str_nat.simps [of n] digit_char_value)
  qed
qed

lemma str_int_examples:
  "str_int 2005 = ''2005'' \<and> str_int 0 = ''0'' \<and> str_int (- 12) = ''-12''"
  by code_simp

subsection \<open>The trace of one call\<close>

lemma runs_of_append: "runs_of (xs @ ys) = runs_of xs @ runs_of ys"
  by (induction xs rule: runs_of.induct) auto

lemma actions_of_append: "actions_of (xs @ ys) = actions_of xs @ actions_of ys"
  by (induction xs rule: actions_of.induct) auto

lemma dirs_made_append: "dirs_made (xs @ ys) = dirs_made xs \<union> dirs_made ys"
  by (induction xs rule: dirs_made.induct) auto

lemma runs_of_actions_of: "runs_of (actions_of xs) = runs_of xs"
  by (induction xs rule: actions_of.induct) auto

lemma dirs_made_actions_of: "dirs_made (actions_of xs) = dirs_made xs"
  by (induction xs rule: actions_of.induct) auto

lemma new_events_append: "events w' = events w @ evs \<Longrightarrow> new_events w w' = evs"
  by (simp add: new_events_def)

lemma download_dataset_step:
  assumes "environ w ''CMEMS_USERNAME'' = Some u" and "environ w ''CMEMS_PASSWORD'' = Some p"
    and "download_dataset sys lc i w = (res, w')"
  shows "environ w' = environ w \<and>
    (\<exists>evs. events w' = events w @ evs \<and> dirs w' = dirs w \<union> dirs_made evs \<and>
      ((res = Some (Inl (OSError (path_join ''data'' i))) \<and> actions_of evs = []) \<or>
       (\<exists>oc. actions_of evs = [MkDir (path_join ''data'' i),
                 Run (subset_cmd sys lc i (path_join ''data'' i) u p) oc] \<and>
             (exit_ok oc \<and> res = None \<or> \<not> exit_ok oc \<and> res = Some (Inr False)))))"
  using assms
  by (auto simp: download_dataset_def makedirs_def build_cmd_def subprocess_run_in_def
      logging_def Let_def split: if_splits proc_outcome.splits)

lemma download_loop_trace:
  assumes "environ w ''CMEMS_USERNAME'' = Some u" and "environ w ''CMEMS_PASSWORD'' = Some p"
    and "download_loop sys lc ids w = (r, w')"
  shows "\<exists>evs. events w' = events w @ evs \<and> dirs w' = dirs w \<union> dirs_made evs \<and>
     environ w' = environ w \<and>
     loop_trace (path_join ''data'') (\<lambda>i. subset_cmd sys lc i (path_join ''data'' i) u p)
       ids (actions_of evs) r"
  using assms
proof (induction ids arbitrary: w)
  case Nil
  then show ?case by (auto simp: logging_def intro: loop_trace.intros)
next
  case (Cons i rest)
  obtain res w1 where step: "download_dataset sys lc i w = (res, w1)"
    by (cases "download_dataset sys lc i w")
  from download_dataset_step [OF Cons.prems(1,2) step]
  obtain evs where env1: "environ w1 = environ w"
    and ev1: "events w1 = events w @ evs" and d1: "dirs w1 = dirs w \<union> dirs_made evs"
    and alt: "(res = Some (Inl (OSError (path_join ''data'' i))) \<and> actions_of evs = []) \<or>
       (\<exists>oc. actions_of evs = [MkDir (path_join ''data'' i),
                 Run (subset_cmd sys lc i (path_join ''data'' i) u p) oc] \<and>
             (exit_ok oc \<and> res = None \<or> \<not> exit_ok oc \<and> res = Some (Inr False)))"
    by blast
  show ?case
  proof (cases res)
    case None
    with alt obtain oc where a: "actions_of evs = [MkDir (path_join ''data'' i),
                 Run (subset_cmd sys lc i (path_join ''data'' i) u p) oc]" and ok: "exit_ok oc"
      by (auto split: if_splits)
    from None step Cons.prems(3) have rest: "download_loop sys lc rest w1 = (r, w')" by simp
    from Cons.IH [OF _ _ rest] env1 Cons.prems(1,2)
    obtain evs2 where ev2: "events w' = events w1 @ evs2"
      and d2: "dirs w' = dirs w1 \<union> dirs_made evs2" and env2: "environ w' = environ w1"
      and lt: "loop_trace (path_join ''data'') (\<lambda>i. subset_cmd sys lc i (path_join ''data'' i) u p)
         rest (actions_of evs2) r"
      by auto
    have "loop_trace (path_join ''data'') (\<lambda>i. subset_cmd sys lc i (path_join ''data'' i) u p)
         (i # rest) (actions_of (evs @ evs2)) r"
      using loop_trace.run_passed [OF ok lt, of i] a by (simp add: actions_of_append)
    with ev1 ev2 d1 d2 env1 env2 show ?thesis
      by (intro exI [of _ "evs @ evs2"]) (auto simp: dirs_made_append)
  next
    case (Some x)
    with step Cons.prems(3) have eq: "r = x" "w' = w1" by simp_all
    from alt Some have "loop_trace (path_join ''data'') (\<lambda>i. subset_cmd sys lc i (path_join ''data'' i) u p)
         (i # rest) (actions_of evs) r"
      unfolding eq by (auto split: if_splits intro: loop_trace.intros)
    with ev1 d1 env1 eq show ?thesis by auto
  qed
qed


lemma download_copernicus_trace:
  assumes "boundary_box ''lat_min'' = Some la_min" and "boundary_box ''lat_max'' = Some la_max"
    and "boundary_box ''lon_min'' = Some lo_min" and "boundary_box ''lon_max'' = Some lo_max"
    and "environ w ''CMEMS_USERNAME'' = Some u" and "environ w ''CMEMS_PASSWORD'' = Some p"
    and "download_copernicus sys boundary_box year w = (r, w')"
  shows "\<exists>evs. events w' = events w @ evs \<and> dirs w' = dirs w \<union> dirs_made evs \<and>
     environ w' = environ w \<and>
     loop_trace (path_join ''data'')
       (\<lambda>i. subset_cmd sys (locals_of la_min la_max lo_min lo_max year) i
              (path_join ''data'' i) u p)
       (dataset_ids year) (actions_of evs) r"
proof -
  let ?w1 = "logging INFO (''Starting Copernicus data download for '' @ str_int year) w"
  have env: "environ ?w1 = environ w" and ev: "events ?w1 = events w @ [Log INFO (''Starting Copernicus data download for '' @ str_int year)]"
    and d: "dirs ?w1 = dirs w"
    by (simp_all add: logging_def)
  from assms have loop: "download_loop sys (locals_of la_min la_max lo_min lo_max year)
      (dataset_ids year) ?w1 = (r, w')"
    by (simp add: download_copernicus_def Let_def logging_def)
  from download_loop_trace [OF _ _ loop, of u p] assms(5,6) env
  obtain evs where "events w' = events ?w1 @ evs" "dirs w' = dirs ?w1 \<union> dirs_made evs"
    "environ w' = environ ?w1"
    "loop_trace (path_join ''data'')
       (\<lambda>i. subset_cmd sys (locals_of la_min la_max lo_min lo_max year) i
              (path_join ''data'' i) u p)
       (dataset_ids year) (actions_of evs) r"
    by auto
  then show ?thesis
    unfolding ev d env
    by (intro exI [of _ "Log INFO (''Starting Copernicus data download for '' @ str_int year) # evs"]) simp
qed

lemma loop_trace_cmds:
  "loop_trace dir cmd ids acts r \<Longrightarrow>
   map fst (runs_of acts) = map cmd (take (length (runs_of acts)) ids)"
  by (induction rule: loop_trace.induct) simp_all

lemma loop_trace_length:
  "loop_trace dir cmd ids acts r \<Longrightarrow> length (runs_of acts) \<le> length ids"
  by (induction rule: loop_trace.induct) simp_all

lemma loop_trace_True:
  "loop_trace dir cmd ids acts r \<Longrightarrow>
   (r = Inr True) = (length (runs_of acts) = length ids \<and> list_all (\<lambda>x. exit_ok (snd x)) (runs_of acts))"
  by (induction rule: loop_trace.induct) simp_all

lemma loop_trace_False:
  "loop_trace dir cmd ids acts r \<Longrightarrow>
   (r = Inr False) = (runs_of acts \<noteq> [] \<and> \<not> exit_ok (snd (last (runs_of acts))))"
  by (induction rule: loop_trace.induct) auto

lemma loop_trace_butlast:
  "loop_trace dir cmd ids acts r \<Longrightarrow> list_all (\<lambda>x. exit_ok (snd x)) (butlast (runs_of acts))"
  by (induction rule: loop_trace.induct) simp_all

lemma loop_trace_actions:
  "loop_trace dir cmd ids acts r \<Longrightarrow>
   acts = concat (map (\<lambda>(i, oc). [MkDir (dir i), Run (cmd i) oc])
                   (zip ids (map snd (runs_of acts))))"
  by (induction rule: loop_trace.induct) simp_all

lemma path_prefixes_last: "acc @ p \<in> set (path_prefixes acc p)"
  by (induction acc p rule: path_prefixes.induct) auto

lemma path_prefixes_self: "p \<in> set (path_prefixes [] p)"
  using path_prefixes_last [of "[]" p] by simp

lemma loop_trace_dirs:
  "loop_trace dir cmd ids acts r \<Longrightarrow>
   i \<in> set (take (length (runs_of acts)) ids) \<Longrightarrow> dir i \<in> dirs_made acts"
  by (induction rule: loop_trace.induct) (auto simp: path_prefixes_self)


subsection \<open>Success and failure of \<open>download_copernicus\<close>\<close>

lemma runs_of_new_events:
  "events w' = events w @ evs \<Longrightarrow> runs_of (new_events w w') = runs_of (actions_of evs)"
  by (simp add: new_events_def runs_of_actions_of)

lemma loop_trace_failure_is_last:
  assumes "loop_trace dir cmd ids acts r" and "n < length (runs_of acts)"
    and "\<not> exit_ok (snd (runs_of acts ! n))"
  shows "r = Inr False \<and> Suc n = length (runs_of acts)"
proof -
  let ?rs = "runs_of acts"
  have all: "list_all (\<lambda>x. exit_ok (snd x)) (butlast ?rs)"
    by (rule loop_trace_butlast [OF assms(1)])
  have "\<not> n < length (butlast ?rs)"
  proof
    assume lt: "n < length (butlast ?rs)"
    then have "butlast ?rs ! n = ?rs ! n" by (simp add: nth_butlast)
    moreover from all lt have "exit_ok (snd (butlast ?rs ! n))"
      by (simp add: list_all_length)
    ultimately show False using assms(3) by simp
  qed
  with assms(2) have n: "Suc n = length ?rs" by simp
  then have ne: "?rs \<noteq> []" by auto
  from n ne have "last ?rs = ?rs ! n"
    by (metis diff_Suc_1 last_conv_nth)
  with assms(3) ne loop_trace_False [OF assms(1)] n show ?thesis by simp
qed

lemma loop_trace_three_ways:
  "loop_trace dir cmd ids acts r \<Longrightarrow>
   (r = Inr True \<and> length (runs_of acts) = length ids \<and>
      list_all (\<lambda>x. exit_ok (snd x)) (runs_of acts)) \<or>
   (r = Inr False \<and> runs_of acts \<noteq> [] \<and> \<not> exit_ok (snd (last (runs_of acts)))) \<or>
   (r = Inl (OSError (dir (ids ! length (runs_of acts)))) \<and>
      length (runs_of acts) < length ids \<and>
      list_all (\<lambda>x. exit_ok (snd x)) (runs_of acts))"
  by (induction rule: loop_trace.induct) auto

lemma download_dataset_raised:
  "download_dataset sys lc i w = (Some (Inl e), w') \<Longrightarrow>
   e = OSError (path_join ''data'' i) \<and>
   makedirs_raises sys (events w') (path_join ''data'' i)"
  by (auto simp: download_dataset_def makedirs_def build_cmd_def subprocess_run_in_def
      logging_def Let_def split: if_splits option.splits proc_outcome.splits)

lemma download_loop_raised:
  "download_loop sys lc ids w = (Inl e, w') \<Longrightarrow>
   \<exists>i \<in> set ids. e = OSError (path_join ''data'' i) \<and>
     makedirs_raises sys (events w') (path_join ''data'' i)"
proof (induction ids arbitrary: w)
  case Nil
  then show ?case by simp
next
  case (Cons i rest)
  obtain res w1 where step: "download_dataset sys lc i w = (res, w1)"
    by (cases "download_dataset sys lc i w")
  show ?case
  proof (cases res)
    case None
    with step Cons.prems have "download_loop sys lc rest w1 = (Inl e, w')" by simp
    from Cons.IH [OF this] show ?thesis by auto
  next
    case (Some x)
    with step Cons.prems have "x = Inl e" "w1 = w'" by simp_all
    with step Some download_dataset_raised [of sys lc i w e w'] show ?thesis by simp
  qed
qed

lemma download_dataset_outcomes:
  "download_dataset sys lc i w = (res, w') \<Longrightarrow>
   \<exists>evs. events w' = events w @ evs \<and>
     (\<forall>x \<in> set (runs_of evs). \<exists>pre. snd x = subprocess_run sys pre (fst x))"
  by (auto simp: download_dataset_def makedirs_def build_cmd_def subprocess_run_in_def
      logging_def Let_def split: if_splits option.splits proc_outcome.splits) metis+

lemma download_loop_outcomes:
  "download_loop sys lc ids w = (r, w') \<Longrightarrow>
   \<exists>evs. events w' = events w @ evs \<and>
     (\<forall>x \<in> set (runs_of evs). \<exists>pre. snd x = subprocess_run sys pre (fst x))"
proof (induction ids arbitrary: w)
  case Nil
  then show ?case by (auto simp: logging_def)
next
  case (Cons i rest)
  obtain res w1 where step: "download_dataset sys lc i w = (res, w1)"
    by (cases "download_dataset sys lc i w")
  from download_dataset_outcomes [OF step]
  obtain evs1 where e1: "events w1 = events w @ evs1"
    and o1: "\<forall>x \<in> set (runs_of evs1). \<exists>pre. snd x = subprocess_run sys pre (fst x)"
    by blast
  show ?case
  proof (cases res)
    case None
    with step Cons.prems have "download_loop sys lc rest w1 = (r, w')" by simp
    from Cons.IH [OF this]
    obtain evs2 where e2: "events w' = events w1 @ evs2"
      and o2: "\<forall>x \<in> set (runs_of evs2). \<exists>pre. snd x = subprocess_run sys pre (fst x)"
      by blast
    from e1 e2 have "events w' = events w @ (evs1 @ evs2)" by simp
    moreover from o1 o2
    have "\<forall>x \<in> set (runs_of (evs1 @ evs2)). \<exists>pre. snd x = subprocess_run sys pre (fst x)"
      by (auto simp: runs_of_append)
    ultimately show ?thesis by blast
  next
    case (Some x)
    with step Cons.prems have "w1 = w'" by simp
    with e1 o1 show ?thesis by blast
  qed
qed

lemma download_copernicus_is_loop:
  assumes "boundary_box ''lat_min'' = Some la_min" and "boundary_box ''lat_max'' = Some la_max"
    and "boundary_box ''lon_min'' = Some lo_min" and "boundary_box ''lon_max'' = Some lo_max"
    and "environ w ''CMEMS_USERNAME'' = Some u" and "environ w ''CMEMS_PASSWORD'' = Some p"
  shows "download_copernicus sys boundary_box year w =
     download_loop sys (locals_of la_min la_max lo_min lo_max year) (dataset_ids year)
       (logging INFO (''Starting Copernicus data download for '' @ str_int year) w)"
  using assms by (simp add: download_copernicus_def Let_def logging_def)

text \<open>
  Claim C1. With a boundary box that has its four fields and with both credentials set,
  \<open>download_copernicus\<close> returns \<^verbatim>\<open>True\<close> exactly when it has started the command of
  every dataset of the year, in order, and each process exited with status zero. A
  process that did not (a non-zero status, or \<^verbatim>\<open>subprocess.run\<close> raising) makes the call
  return \<^verbatim>\<open>False\<close> and is the last process started: no later dataset is attempted.
  The processes started are always the commands of the first datasets of the year.

  The call ends in one of three ways: it returns \<^verbatim>\<open>True\<close> after a process for every
  dataset, all with status zero; it returns \<^verbatim>\<open>False\<close> and the last process started did
  not exit with status zero; or it leaves with the \<^verbatim>\<open>OSError\<close> of the directory of the
  next dataset, and then \<^verbatim>\<open>os.makedirs\<close> did raise for that directory at the end of the
  trace. After a process that exited with status zero, when a dataset is left, the process
  of the next dataset is started, unless the call left with that \<^verbatim>\<open>OSError\<close>. Each
  recorded outcome is an answer of the system for the recorded command. So in a system in
  which \<^verbatim>\<open>os.makedirs\<close> never raises and every process exits with status zero, the
  call starts the commands of all datasets of the year and returns \<^verbatim>\<open>True\<close>.
\<close>

theorem download_copernicus_true_iff_all_exit_zero:
  assumes "boundary_box ''lat_min'' = Some la_min" and "boundary_box ''lat_max'' = Some la_max"
    and "boundary_box ''lon_min'' = Some lo_min" and "boundary_box ''lon_max'' = Some lo_max"
    and "environ w ''CMEMS_USERNAME'' = Some u" and "environ w ''CMEMS_PASSWORD'' = Some p"
  shows
    "(fst (download_copernicus sys boundary_box year w) = Inr True \<longleftrightarrow>
        map fst (runs_of (new_events w (snd (download_copernicus sys boundary_box year w)))) =
          map (\<lambda>i. subset_cmd sys (locals_of la_min la_max lo_min lo_max year) i
                     (path_join ''data'' i) u p) (dataset_ids year) \<and>
        list_all (\<lambda>x. exit_ok (snd x))
          (runs_of (new_events w (snd (download_copernicus sys boundary_box year w))))) \<and>
     (\<forall>n < length (runs_of (new_events w (snd (download_copernicus sys boundary_box year w)))).
        \<not> exit_ok (snd (runs_of (new_events w
              (snd (download_copernicus sys boundary_box year w))) ! n)) \<longrightarrow>
        fst (download_copernicus sys boundary_box year w) = Inr False \<and>
        Suc n = length (runs_of (new_events w
              (snd (download_copernicus sys boundary_box year w))))) \<and>
     map fst (runs_of (new_events w (snd (download_copernicus sys boundary_box year w)))) =
       map (\<lambda>i. subset_cmd sys (locals_of la_min la_max lo_min lo_max year) i
                  (path_join ''data'' i) u p)
         (take (length (runs_of (new_events w
              (snd (download_copernicus sys boundary_box year w))))) (dataset_ids year)) \<and>
     ((fst (download_copernicus sys boundary_box year w) = Inr True \<and>
       length (runs_of (new_events w (snd (download_copernicus sys boundary_box year w)))) =
         length (dataset_ids year) \<and>
       list_all (\<lambda>x. exit_ok (snd x))
         (runs_of (new_events w (snd (download_copernicus sys boundary_box year w))))) \<or>
      (fst (download_copernicus sys boundary_box year w) = Inr False \<and>
       runs_of (new_events w (snd (download_copernicus sys boundary_box year w))) \<noteq> [] \<and>
       \<not> exit_ok (snd (last (runs_of (new_events w
              (snd (download_copernicus sys boundary_box year w))))))) \<or>
      (fst (download_copernicus sys boundary_box year w) =
         Inl (OSError (path_join ''data'' (dataset_ids year !
           length (runs_of (new_events w
              (snd (download_copernicus sys boundary_box year w))))))) \<and>
       length (runs_of (new_events w (snd (download_copernicus sys boundary_box year w)))) <
         length (dataset_ids year) \<and>
       list_all (\<lambda>x. exit_ok (snd x))
         (runs_of (new_events w (snd (download_copernicus sys boundary_box year w)))) \<and>
       makedirs_raises sys (events (snd (download_copernicus sys boundary_box year w)))
         (path_join ''data'' (dataset_ids year !
           length (runs_of (new_events w
              (snd (download_copernicus sys boundary_box year w)))))))) \<and>
     (\<forall>n < length (runs_of (new_events w (snd (download_copernicus sys boundary_box year w)))).
        exit_ok (snd (runs_of (new_events w
              (snd (download_copernicus sys boundary_box year w))) ! n)) \<and>
        Suc n < length (dataset_ids year) \<longrightarrow>
        Suc n < length (runs_of (new_events w
              (snd (download_copernicus sys boundary_box year w)))) \<or>
        fst (download_copernicus sys boundary_box year w) =
          Inl (OSError (path_join ''data'' (dataset_ids year ! Suc n)))) \<and>
     (\<forall>x \<in> set (runs_of (new_events w (snd (download_copernicus sys boundary_box year w)))).
        \<exists>pre. snd x = subprocess_run sys pre (fst x)) \<and>
     ((\<forall>pre path. \<not> makedirs_raises sys pre path) \<and>
      (\<forall>pre c. exit_ok (subprocess_run sys pre c)) \<longrightarrow>
      fst (download_copernicus sys boundary_box year w) = Inr True \<and>
      map fst (runs_of (new_events w (snd (download_copernicus sys boundary_box year w)))) =
        map (\<lambda>i. subset_cmd sys (locals_of la_min la_max lo_min lo_max year) i
                   (path_join ''data'' i) u p) (dataset_ids year) \<and>
      list_all (\<lambda>x. exit_ok (snd x))
        (runs_of (new_events w (snd (download_copernicus sys boundary_box year w)))))"
proof -
  obtain r w' where eq: "download_copernicus sys boundary_box year w = (r, w')"
    by (cases "download_copernicus sys boundary_box year w")
  let ?ids = "dataset_ids year"
  let ?cmd = "\<lambda>i. subset_cmd sys (locals_of la_min la_max lo_min lo_max year) i
                     (path_join ''data'' i) u p"
  let ?ok = "\<lambda>x. exit_ok (snd x)"
  from download_copernicus_trace [OF assms eq]
  obtain evs where ev: "events w' = events w @ evs"
    and lt: "loop_trace (path_join ''data'') ?cmd ?ids (actions_of evs) r"
    by blast
  let ?rs = "runs_of (actions_of evs)"
  have rs: "runs_of (new_events w w') = ?rs"
    by (rule runs_of_new_events [OF ev])
  have cmds: "map fst ?rs = map ?cmd (take (length ?rs) ?ids)"
    by (rule loop_trace_cmds [OF lt])
  have len: "length ?rs \<le> length ?ids"
    by (rule loop_trace_length [OF lt])
  have full: "length ?rs = length ?ids \<longleftrightarrow> map fst ?rs = map ?cmd ?ids"
  proof
    assume "length ?rs = length ?ids"
    with cmds show "map fst ?rs = map ?cmd ?ids" by simp
  next
    assume "map fst ?rs = map ?cmd ?ids"
    then have "length (map fst ?rs) = length (map ?cmd ?ids)" by simp
    then show "length ?rs = length ?ids" by simp
  qed
  have a: "r = Inr True \<longleftrightarrow> map fst ?rs = map ?cmd ?ids \<and> list_all ?ok ?rs"
    using loop_trace_True [OF lt] full by simp
  have b: "\<forall>n < length ?rs. \<not> exit_ok (snd (?rs ! n)) \<longrightarrow> r = Inr False \<and> Suc n = length ?rs"
    using loop_trace_failure_is_last [OF lt] by blast
  have loop: "download_loop sys (locals_of la_min la_max lo_min lo_max year) ?ids
       (logging INFO (''Starting Copernicus data download for '' @ str_int year) w) = (r, w')"
    using download_copernicus_is_loop [OF assms, of sys year] eq by simp
  have raised: "makedirs_raises sys (events w') (path_join ''data'' (?ids ! length ?rs))"
    if "r = Inl (OSError (path_join ''data'' (?ids ! length ?rs)))"
  proof -
    from download_loop_raised [OF loop [unfolded that]]
    obtain i where "OSError (path_join ''data'' (?ids ! length ?rs)) = OSError (path_join ''data'' i)"
      and "makedirs_raises sys (events w') (path_join ''data'' i)"
      by blast
    then show ?thesis by simp
  qed
  have three0: "(r = Inr True \<and> length ?rs = length ?ids \<and> list_all ?ok ?rs) \<or>
      (r = Inr False \<and> ?rs \<noteq> [] \<and> \<not> exit_ok (snd (last ?rs))) \<or>
      (r = Inl (OSError (path_join ''data'' (?ids ! length ?rs))) \<and> length ?rs < length ?ids \<and>
         list_all ?ok ?rs)"
    by (rule loop_trace_three_ways [OF lt])
  with raised have three: "(r = Inr True \<and> length ?rs = length ?ids \<and> list_all ?ok ?rs) \<or>
      (r = Inr False \<and> ?rs \<noteq> [] \<and> \<not> exit_ok (snd (last ?rs))) \<or>
      (r = Inl (OSError (path_join ''data'' (?ids ! length ?rs))) \<and> length ?rs < length ?ids \<and>
         list_all ?ok ?rs \<and>
         makedirs_raises sys (events w') (path_join ''data'' (?ids ! length ?rs)))"
    by blast
  have next_started: "\<forall>n < length ?rs. exit_ok (snd (?rs ! n)) \<and> Suc n < length ?ids \<longrightarrow>
      Suc n < length ?rs \<or> r = Inl (OSError (path_join ''data'' (?ids ! Suc n)))"
  proof (intro allI impI)
    fix n
    assume n: "n < length ?rs" and h: "exit_ok (snd (?rs ! n)) \<and> Suc n < length ?ids"
    show "Suc n < length ?rs \<or> r = Inl (OSError (path_join ''data'' (?ids ! Suc n)))"
    proof (cases "Suc n < length ?rs")
      case True
      then show ?thesis by simp
    next
      case False
      with n have l: "length ?rs = Suc n" by simp
      then have ne: "?rs \<noteq> []" by auto
      from l ne have "last ?rs = ?rs ! n" by (simp add: last_conv_nth)
      with h three0 l show ?thesis by auto
    qed
  qed
  from download_loop_outcomes [OF loop]
  obtain evs2 where e2: "events w' =
      events (logging INFO (''Starting Copernicus data download for '' @ str_int year) w) @ evs2"
    and o2: "\<forall>x \<in> set (runs_of evs2). \<exists>pre. snd x = subprocess_run sys pre (fst x)"
    by blast
  from e2 have "new_events w w' =
      Log INFO (''Starting Copernicus data download for '' @ str_int year) # evs2"
    by (simp add: new_events_def logging_def)
  then have "runs_of (new_events w w') = runs_of evs2" by simp
  with o2 rs have answers: "\<forall>x \<in> set ?rs. \<exists>pre. snd x = subprocess_run sys pre (fst x)"
    by simp
  have progress: "r = Inr True \<and> map fst ?rs = map ?cmd ?ids \<and> list_all ?ok ?rs"
    if "(\<forall>pre path. \<not> makedirs_raises sys pre path) \<and>
        (\<forall>pre c. exit_ok (subprocess_run sys pre c))"
  proof -
    from that answers have allok: "list_all ?ok ?rs"
      by (auto simp: list_all_iff)
    have "\<not> (?rs \<noteq> [] \<and> \<not> exit_ok (snd (last ?rs)))"
    proof
      assume "?rs \<noteq> [] \<and> \<not> exit_ok (snd (last ?rs))"
      then have "last ?rs \<in> set ?rs" "\<not> exit_ok (snd (last ?rs))" by simp_all
      with allok show False by (simp add: list_all_iff)
    qed
    with three that have "r = Inr True" "length ?rs = length ?ids" by blast+
    with a full allok show ?thesis by simp
  qed
  show ?thesis
    unfolding eq fst_conv snd_conv rs
    by (intro conjI) (rule a, rule b, rule cmds, rule three, rule next_started, rule answers,
        rule impI, erule progress)
qed


text \<open>The equations that evaluate a call on a concrete world.\<close>

lemmas run_defs = download_copernicus_def logging_def download_dataset_def makedirs_def
  build_cmd_def subprocess_run_in_def Let_def new_events_def

text \<open>
  The tool exits with status 1: one process is started and the call returns \<^verbatim>\<open>False\<close>.
  The tool exits with status 0: two processes are started and the call returns \<^verbatim>\<open>True\<close>.
\<close>

theorem download_copernicus_true_iff_all_exit_zero_witness:
  "boundary_box_of_run ''lat_min'' = Some 24 \<and> boundary_box_of_run ''lat_max'' = Some 31 \<and>
   boundary_box_of_run ''lon_min'' = Some (- 92) \<and> boundary_box_of_run ''lon_max'' = Some (- 86) \<and>
   environ sample_world ''CMEMS_USERNAME'' = Some ''user'' \<and>
   environ sample_world ''CMEMS_PASSWORD'' = Some ''secret'' \<and>
   fst (download_copernicus (sample_system (Exited 1 []) None) boundary_box_of_run 2005
          sample_world) = Inr False \<and>
   length (runs_of (new_events sample_world
     (snd (download_copernicus (sample_system (Exited 1 []) None) boundary_box_of_run 2005
          sample_world)))) = 1 \<and>
   fst (download_copernicus (sample_system (Exited 0 []) None) boundary_box_of_run 2021
          sample_world) = Inr True \<and>
   length (runs_of (new_events sample_world
     (snd (download_copernicus (sample_system (Exited 0 []) None) boundary_box_of_run 2021
          sample_world)))) = 2"
proof -
  have b: "boundary_box_of_run ''lat_min'' = Some 24" "boundary_box_of_run ''lat_max'' = Some 31"
    "boundary_box_of_run ''lon_min'' = Some (- 92)" "boundary_box_of_run ''lon_max'' = Some (- 86)"
    by (simp_all add: boundary_box_of_run_def)
  have c: "environ sample_world ''CMEMS_USERNAME'' = Some ''user''"
    "environ sample_world ''CMEMS_PASSWORD'' = Some ''secret''"
    by (simp_all add: sample_world_def)
  have r: "map snd (runs_of (new_events sample_world
     (snd (download_copernicus (sample_system (Exited 1 []) None) boundary_box_of_run 2005
          sample_world)))) = [Exited 1 []]"
    by (simp add: run_defs boundary_box_of_run_def sample_world_def sample_system_def
        dataset_ids_def)
  from r have l: "length (runs_of (new_events sample_world
     (snd (download_copernicus (sample_system (Exited 1 []) None) boundary_box_of_run 2005
          sample_world)))) = 1"
    by (metis length_map length_Cons list.size(3) One_nat_def)
  from r have n: "\<not> exit_ok (snd (runs_of (new_events sample_world
     (snd (download_copernicus (sample_system (Exited 1 []) None) boundary_box_of_run 2005
          sample_world))) ! 0))"
    by (metis l nth_map exit_ok.simps(1) nth_Cons_0 zero_less_one zero_neq_one)
  from l have pos: "0 < length (runs_of (new_events sample_world
     (snd (download_copernicus (sample_system (Exited 1 []) None) boundary_box_of_run 2005
          sample_world))))"
    by simp
  note failing = download_copernicus_true_iff_all_exit_zero [OF b c, of "sample_system (Exited 1 []) None" 2005,
      THEN conjunct2, THEN conjunct1, rule_format, OF pos n]
  then have f: "fst (download_copernicus (sample_system (Exited 1 []) None) boundary_box_of_run
      2005 sample_world) = Inr False"
    by (rule conjunct1)
  have m: "\<forall>pre path. \<not> makedirs_raises (sample_system (Exited 0 []) None) pre path"
    by (simp add: sample_system_def)
  have o: "\<forall>pre c. exit_ok (subprocess_run (sample_system (Exited 0 []) None) pre c)"
    by (simp add: sample_system_def)
  note succeeding = download_copernicus_true_iff_all_exit_zero [OF b c, of "sample_system (Exited 0 []) None" 2021,
      THEN conjunct2, THEN conjunct2, THEN conjunct2, THEN conjunct2, THEN conjunct2,
      THEN conjunct2, THEN mp, OF conjI [OF m o]]
  from succeeding have t: "fst (download_copernicus (sample_system (Exited 0 []) None)
      boundary_box_of_run 2021 sample_world) = Inr True"
    by (rule conjunct1)
  from succeeding [THEN conjunct2, THEN conjunct1]
  have "length (map fst (runs_of (new_events sample_world
     (snd (download_copernicus (sample_system (Exited 0 []) None) boundary_box_of_run 2021
          sample_world))))) = length (dataset_ids 2021)"
    by (simp only: length_map)
  then have l2: "length (runs_of (new_events sample_world
     (snd (download_copernicus (sample_system (Exited 0 []) None) boundary_box_of_run 2021
          sample_world)))) = 2"
    by (simp add: dataset_ids_def)
  from b c f l t l2 show ?thesis by blast
qed

subsection \<open>Leaving before the loop\<close>

lemma download_copernicus_no_box:
  assumes "boundary_box ''lat_min'' = None \<or> boundary_box ''lat_max'' = None \<or>
           boundary_box ''lon_min'' = None \<or> boundary_box ''lon_max'' = None"
  shows "snd (download_copernicus sys boundary_box year w) = w"
  using assms by (auto simp: download_copernicus_def split: option.splits)

lemma download_copernicus_no_credentials:
  assumes "boundary_box ''lat_min'' = Some la_min" and "boundary_box ''lat_max'' = Some la_max"
    and "boundary_box ''lon_min'' = Some lo_min" and "boundary_box ''lon_max'' = Some lo_max"
    and "environ w ''CMEMS_USERNAME'' = None \<or> environ w ''CMEMS_PASSWORD'' = None"
  shows "download_copernicus sys boundary_box year w =
     (Inr False,
      logging ERROR ''Copernicus Marine credentials not found in environment variables''
        (logging INFO (''Starting Copernicus data download for '' @ str_int year) w))"
  using assms by (auto simp: download_copernicus_def Let_def logging_def)

lemma invoked_cases:
  assumes "c \<in> set (invoked sys boundary_box year w)"
  shows "\<exists>la_min la_max lo_min lo_max u p i.
     boundary_box ''lat_min'' = Some la_min \<and> boundary_box ''lat_max'' = Some la_max \<and>
     boundary_box ''lon_min'' = Some lo_min \<and> boundary_box ''lon_max'' = Some lo_max \<and>
     environ w ''CMEMS_USERNAME'' = Some u \<and> environ w ''CMEMS_PASSWORD'' = Some p \<and>
     i \<in> set (dataset_ids year) \<and>
     c = subset_cmd sys (locals_of la_min la_max lo_min lo_max year) i (path_join ''data'' i) u p"
proof -
  have box: "\<not> (boundary_box ''lat_min'' = None \<or> boundary_box ''lat_max'' = None \<or>
           boundary_box ''lon_min'' = None \<or> boundary_box ''lon_max'' = None)"
  proof
    assume "boundary_box ''lat_min'' = None \<or> boundary_box ''lat_max'' = None \<or>
           boundary_box ''lon_min'' = None \<or> boundary_box ''lon_max'' = None"
    from download_copernicus_no_box [OF this] assms show False
      by (simp add: invoked_def new_events_def)
  qed
  then obtain la_min la_max lo_min lo_max where b:
    "boundary_box ''lat_min'' = Some la_min" "boundary_box ''lat_max'' = Some la_max"
    "boundary_box ''lon_min'' = Some lo_min" "boundary_box ''lon_max'' = Some lo_max"
    by auto
  have "\<not> (environ w ''CMEMS_USERNAME'' = None \<or> environ w ''CMEMS_PASSWORD'' = None)"
  proof
    assume "environ w ''CMEMS_USERNAME'' = None \<or> environ w ''CMEMS_PASSWORD'' = None"
    from download_copernicus_no_credentials [OF b this] assms show False
      by (simp add: invoked_def new_events_def logging_def)
  qed
  then obtain u p where cr: "environ w ''CMEMS_USERNAME'' = Some u"
    "environ w ''CMEMS_PASSWORD'' = Some p"
    by auto
  obtain r w' where eq: "download_copernicus sys boundary_box year w = (r, w')"
    by (cases "download_copernicus sys boundary_box year w")
  let ?cmd = "\<lambda>i. subset_cmd sys (locals_of la_min la_max lo_min lo_max year) i
                     (path_join ''data'' i) u p"
  from download_copernicus_trace [OF b cr eq]
  obtain evs where ev: "events w' = events w @ evs"
    and lt: "loop_trace (path_join ''data'') ?cmd (dataset_ids year) (actions_of evs) r"
    by blast
  from assms eq have "c \<in> set (map fst (runs_of (actions_of evs)))"
    by (simp add: invoked_def runs_of_new_events [OF ev])
  with loop_trace_cmds [OF lt]
  have "c \<in> ?cmd ` set (take (length (runs_of (actions_of evs))) (dataset_ids year))"
    by simp
  then obtain i where "i \<in> set (dataset_ids year)" "c = ?cmd i"
    by (auto dest: in_set_takeD)
  with b cr show ?thesis by blast
qed

text \<open>
  Claim C2. For a boundary box that has its four fields and every year: if
  \<^verbatim>\<open>CMEMS_USERNAME\<close> or \<^verbatim>\<open>CMEMS_PASSWORD\<close> is not in the environment, the call returns
  \<^verbatim>\<open>False\<close>, starts no process, creates no directory (its trace holds log records only)
  and leaves the set of directories as it was.
\<close>

theorem missing_credentials_fail_fast:
  assumes "boundary_box ''lat_min'' = Some la_min" and "boundary_box ''lat_max'' = Some la_max"
    and "boundary_box ''lon_min'' = Some lo_min" and "boundary_box ''lon_max'' = Some lo_max"
    and "environ w ''CMEMS_USERNAME'' = None \<or> environ w ''CMEMS_PASSWORD'' = None"
  shows "fst (download_copernicus sys boundary_box year w) = Inr False \<and>
     runs_of (new_events w (snd (download_copernicus sys boundary_box year w))) = [] \<and>
     actions_of (new_events w (snd (download_copernicus sys boundary_box year w))) = [] \<and>
     invoked sys boundary_box year w = [] \<and>
     dirs (snd (download_copernicus sys boundary_box year w)) = dirs w"
  unfolding invoked_def download_copernicus_no_credentials [OF assms]
  by (simp add: logging_def new_events_def)

text \<open>The password is missing: the call returns \<^verbatim>\<open>False\<close> and starts nothing.\<close>

theorem missing_credentials_fail_fast_witness:
  "boundary_box_of_run ''lat_min'' = Some 24 \<and> boundary_box_of_run ''lat_max'' = Some 31 \<and>
   boundary_box_of_run ''lon_min'' = Some (- 92) \<and> boundary_box_of_run ''lon_max'' = Some (- 86) \<and>
   (environ (bare_world (Some ''user'') None) ''CMEMS_USERNAME'' = None \<or>
    environ (bare_world (Some ''user'') None) ''CMEMS_PASSWORD'' = None) \<and>
   fst (download_copernicus (sample_system (Exited 0 []) None) boundary_box_of_run 2021
          (bare_world (Some ''user'') None)) = Inr False \<and>
   invoked (sample_system (Exited 0 []) None) boundary_box_of_run 2021
          (bare_world (Some ''user'') None) = []"
proof -
  have b: "boundary_box_of_run ''lat_min'' = Some 24" "boundary_box_of_run ''lat_max'' = Some 31"
    "boundary_box_of_run ''lon_min'' = Some (- 92)" "boundary_box_of_run ''lon_max'' = Some (- 86)"
    by (simp_all add: boundary_box_of_run_def)
  have c: "environ (bare_world (Some ''user'') None) ''CMEMS_USERNAME'' = None \<or>
    environ (bare_world (Some ''user'') None) ''CMEMS_PASSWORD'' = None"
    by (simp add: bare_world_def)
  from missing_credentials_fail_fast [OF b c, of "sample_system (Exited 0 []) None" 2021] b c
  show ?thesis by blast
qed

text \<open>
  Claim C9. If the boundary box lacks one of the keys \<^verbatim>\<open>lat_min\<close>, \<^verbatim>\<open>lat_max\<close>,
  \<^verbatim>\<open>lon_min\<close>, \<^verbatim>\<open>lon_max\<close>, the call raises \<^verbatim>\<open>KeyError\<close> for a missing key
  instead of returning \<^verbatim>\<open>False\<close>, whatever the environment holds, and the world is
  untouched: nothing is added to the trace, no process is started and no directory is
  created.
\<close>

theorem missing_key_raises_KeyError:
  assumes "boundary_box ''lat_min'' = None \<or> boundary_box ''lat_max'' = None \<or>
           boundary_box ''lon_min'' = None \<or> boundary_box ''lon_max'' = None"
  shows "(\<exists>k \<in> {''lat_min'', ''lat_max'', ''lon_min'', ''lon_max''}.
            boundary_box k = None \<and>
            download_copernicus sys boundary_box year w = (Inl (KeyError k), w)) \<and>
         fst (download_copernicus sys boundary_box year w) \<noteq> Inr False \<and>
         new_events w (snd (download_copernicus sys boundary_box year w)) = [] \<and>
         invoked sys boundary_box year w = [] \<and>
         dirs (snd (download_copernicus sys boundary_box year w)) = dirs w"
proof -
  have 1: "\<exists>k \<in> {''lat_min'', ''lat_max'', ''lon_min'', ''lon_max''}.
            boundary_box k = None \<and>
            download_copernicus sys boundary_box year w = (Inl (KeyError k), w)"
    using assms by (auto simp: download_copernicus_def split: option.splits)
  then have 2: "fst (download_copernicus sys boundary_box year w) \<noteq> Inr False" by auto
  from download_copernicus_no_box [OF assms]
  have 3: "snd (download_copernicus sys boundary_box year w) = w" .
  show ?thesis using 1 2 unfolding invoked_def 3 by (simp add: new_events_def)
qed

text \<open>The box of \<open>run\<close> without \<^verbatim>\<open>lon_min\<close>, in a world without credentials.\<close>

theorem missing_key_raises_KeyError_witness:
  "(boundary_box_of_run(''lon_min'' := None)) ''lon_min'' = None \<and>
   download_copernicus (sample_system (Exited 0 []) None)
     (boundary_box_of_run(''lon_min'' := None)) 2021 (bare_world None None) =
   (Inl (KeyError ''lon_min''), bare_world None None)"
proof -
  have h: "(boundary_box_of_run(''lon_min'' := None)) ''lat_min'' = None \<or>
     (boundary_box_of_run(''lon_min'' := None)) ''lat_max'' = None \<or>
     (boundary_box_of_run(''lon_min'' := None)) ''lon_min'' = None \<or>
     (boundary_box_of_run(''lon_min'' := None)) ''lon_max'' = None"
    by simp
  have k: "(boundary_box_of_run(''lon_min'' := None)) ''lat_min'' \<noteq> None"
    "(boundary_box_of_run(''lon_min'' := None)) ''lat_max'' \<noteq> None"
    "(boundary_box_of_run(''lon_min'' := None)) ''lon_max'' \<noteq> None"
    by (simp_all add: boundary_box_of_run_def)
  from missing_key_raises_KeyError [OF h, of "sample_system (Exited 0 []) None" 2021
      "bare_world None None"] k h
  show ?thesis by blast
qed

subsection \<open>The commands that are started\<close>

lemma invoked_sample:
  "invoked (sample_system (Exited 0 []) None) boundary_box_of_run 2021 sample_world =
     [subset_cmd (sample_system (Exited 0 []) None) (locals_of 24 31 (- 92) (- 86) 2021)
        ''cmems_mod_glo_phy_myint_0.083deg_P1D-m''
        (path_join ''data'' ''cmems_mod_glo_phy_myint_0.083deg_P1D-m'') ''user'' ''secret'',
      subset_cmd (sample_system (Exited 0 []) None) (locals_of 24 31 (- 92) (- 86) 2021)
        ''cmems_mod_glo_bgc_my_0.25deg_P1D-m''
        (path_join ''data'' ''cmems_mod_glo_bgc_my_0.25deg_P1D-m'') ''user'' ''secret'']"
  by (simp add: invoked_def run_defs boundary_box_of_run_def sample_world_def sample_system_def
      dataset_ids_def)



text \<open>
  Claim C4. Every command that \<open>download_copernicus\<close> starts has 28 arguments and ends
  with the two depth flags, both carrying 0.5057600140571594 when the command is for the
  biogeochemistry dataset and 0.49402499198913574 otherwise; the same holds for the
  command built for any dataset identifier at all.
\<close>

theorem depth_by_dataset_id:
  "(\<forall>c \<in> set (invoked sys boundary_box year w).
      length c = 28 \<and>
      drop 24 c =
        (if c ! 2 = ''--dataset-id=cmems_mod_glo_bgc_my_0.25deg_P1D-m''
         then [''--minimum-depth'', ''0.5057600140571594'',
               ''--maximum-depth'', ''0.5057600140571594'']
         else [''--minimum-depth'', ''0.49402499198913574'',
               ''--maximum-depth'', ''0.49402499198913574''])) \<and>
   drop 24 (subset_cmd sys' lc i d u p) =
     (if i = ''cmems_mod_glo_bgc_my_0.25deg_P1D-m''
      then [''--minimum-depth'', ''0.5057600140571594'',
            ''--maximum-depth'', ''0.5057600140571594'']
      else [''--minimum-depth'', ''0.49402499198913574'',
            ''--maximum-depth'', ''0.49402499198913574''])"
proof -
  have "length c = 28 \<and>
      drop 24 c =
        (if c ! 2 = ''--dataset-id=cmems_mod_glo_bgc_my_0.25deg_P1D-m''
         then [''--minimum-depth'', ''0.5057600140571594'',
               ''--maximum-depth'', ''0.5057600140571594'']
         else [''--minimum-depth'', ''0.49402499198913574'',
               ''--maximum-depth'', ''0.49402499198913574''])"
    if "c \<in> set (invoked sys boundary_box year w)" for c
  proof -
    from invoked_cases [OF that] obtain lc d u p i where
      "c = subset_cmd sys lc i d u p"
      by blast
    then show ?thesis by (simp add: subset_cmd_def)
  qed
  then show ?thesis by (simp add: subset_cmd_def)
qed

text \<open>The physics command of a successful call for 2021.\<close>

theorem depth_by_dataset_id_witness:
  "subset_cmd (sample_system (Exited 0 []) None) (locals_of 24 31 (- 92) (- 86) 2021)
        ''cmems_mod_glo_phy_myint_0.083deg_P1D-m''
        (path_join ''data'' ''cmems_mod_glo_phy_myint_0.083deg_P1D-m'') ''user'' ''secret''
     \<in> set (invoked (sample_system (Exited 0 []) None) boundary_box_of_run 2021 sample_world) \<and>
   drop 24 (subset_cmd (sample_system (Exited 0 []) None) (locals_of 24 31 (- 92) (- 86) 2021)
        ''cmems_mod_glo_phy_myint_0.083deg_P1D-m''
        (path_join ''data'' ''cmems_mod_glo_phy_myint_0.083deg_P1D-m'') ''user'' ''secret'') =
     [''--minimum-depth'', ''0.49402499198913574'', ''--maximum-depth'', ''0.49402499198913574'']"
proof -
  have m: "subset_cmd (sample_system (Exited 0 []) None) (locals_of 24 31 (- 92) (- 86) 2021)
        ''cmems_mod_glo_phy_myint_0.083deg_P1D-m''
        (path_join ''data'' ''cmems_mod_glo_phy_myint_0.083deg_P1D-m'') ''user'' ''secret''
     \<in> set (invoked (sample_system (Exited 0 []) None) boundary_box_of_run 2021 sample_world)"
    unfolding invoked_sample by simp
  have i: "subset_cmd (sample_system (Exited 0 []) None) (locals_of 24 31 (- 92) (- 86) 2021)
        ''cmems_mod_glo_phy_myint_0.083deg_P1D-m''
        (path_join ''data'' ''cmems_mod_glo_phy_myint_0.083deg_P1D-m'') ''user'' ''secret'' ! 2
      \<noteq> ''--dataset-id=cmems_mod_glo_bgc_my_0.25deg_P1D-m''"
    by (simp add: subset_cmd_def)
  have "\<forall>c \<in> set (invoked (sample_system (Exited 0 []) None) boundary_box_of_run 2021
      sample_world).
      length c = 28 \<and>
      drop 24 c =
        (if c ! 2 = ''--dataset-id=cmems_mod_glo_bgc_my_0.25deg_P1D-m''
         then [''--minimum-depth'', ''0.5057600140571594'',
               ''--maximum-depth'', ''0.5057600140571594'']
         else [''--minimum-depth'', ''0.49402499198913574'',
               ''--maximum-depth'', ''0.49402499198913574''])"
    by (rule conjunct1 [OF depth_by_dataset_id])
  from bspec [OF this m, THEN conjunct2] m show ?thesis
    by (simp only: i if_False simp_thms)
qed

text \<open>
  Claim C6. In every command that a call for the year \<open>year\<close> starts, the start datetime
  is the decimal year followed by \<^verbatim>\<open>-08-01T00:00:00\<close> and the end datetime is the
  decimal year followed by \<^verbatim>\<open>-10-31T23:59:59\<close>.
\<close>

theorem datetimes_of_year:
  "\<forall>c \<in> set (invoked sys boundary_box year w).
      c ! 15 = ''--start-datetime'' \<and> c ! 16 = str_int year @ ''-08-01T00:00:00'' \<and>
      c ! 17 = ''--end-datetime'' \<and> c ! 18 = str_int year @ ''-10-31T23:59:59''"
proof
  fix c
  assume "c \<in> set (invoked sys boundary_box year w)"
  from invoked_cases [OF this] obtain a b c' d' i d u p where
    "c = subset_cmd sys (locals_of a b c' d' year) i d u p"
    by blast
  then show "c ! 15 = ''--start-datetime'' \<and> c ! 16 = str_int year @ ''-08-01T00:00:00'' \<and>
      c ! 17 = ''--end-datetime'' \<and> c ! 18 = str_int year @ ''-10-31T23:59:59''"
    by (simp add: subset_cmd_def locals_of_def)
qed

text \<open>The biogeochemistry command of a successful call for 2021.\<close>

theorem datetimes_of_year_witness:
  "subset_cmd (sample_system (Exited 0 []) None) (locals_of 24 31 (- 92) (- 86) 2021)
        ''cmems_mod_glo_bgc_my_0.25deg_P1D-m''
        (path_join ''data'' ''cmems_mod_glo_bgc_my_0.25deg_P1D-m'') ''user'' ''secret''
     \<in> set (invoked (sample_system (Exited 0 []) None) boundary_box_of_run 2021 sample_world) \<and>
   subset_cmd (sample_system (Exited 0 []) None) (locals_of 24 31 (- 92) (- 86) 2021)
        ''cmems_mod_glo_bgc_my_0.25deg_P1D-m''
        (path_join ''data'' ''cmems_mod_glo_bgc_my_0.25deg_P1D-m'') ''user'' ''secret'' ! 16 =
     ''2021-08-01T00:00:00'' \<and>
   subset_cmd (sample_system (Exited 0 []) None) (locals_of 24 31 (- 92) (- 86) 2021)
        ''cmems_mod_glo_bgc_my_0.25deg_P1D-m''
        (path_join ''data'' ''cmems_mod_glo_bgc_my_0.25deg_P1D-m'') ''user'' ''secret'' ! 18 =
     ''2021-10-31T23:59:59''"
proof -
  have s: "str_int 2021 = ''2021''" by code_simp
  have m: "subset_cmd (sample_system (Exited 0 []) None) (locals_of 24 31 (- 92) (- 86) 2021)
        ''cmems_mod_glo_bgc_my_0.25deg_P1D-m''
        (path_join ''data'' ''cmems_mod_glo_bgc_my_0.25deg_P1D-m'') ''user'' ''secret''
     \<in> set (invoked (sample_system (Exited 0 []) None) boundary_box_of_run 2021 sample_world)"
    unfolding invoked_sample by simp
  from bspec [OF datetimes_of_year m] m show ?thesis
    unfolding s by simp
qed

subsection \<open>The driver \<open>run\<close>\<close>

lemma run_loop_all_succeed:
  assumes "\<forall>j < length ys.
     fst (download_copernicus sys bb (ys ! j)
            (fold (\<lambda>year v. snd (download_copernicus sys bb year v)) (take j ys) w)) = Inr True"
  shows "run_loop sys bb ys w =
     (Inr (), logging INFO ''Completed Copernicus data download module''
        (fold (\<lambda>year v. snd (download_copernicus sys bb year v)) ys w))"
  using assms
proof (induction ys arbitrary: w)
  case Nil
  then show ?case by simp
next
  case (Cons y ys)
  from Cons.prems [rule_format, of 0] have h: "fst (download_copernicus sys bb y w) = Inr True"
    by simp
  have "\<forall>j < length ys.
     fst (download_copernicus sys bb (ys ! j)
            (fold (\<lambda>year v. snd (download_copernicus sys bb year v)) (take j ys)
               (snd (download_copernicus sys bb y w)))) = Inr True"
  proof (intro allI impI)
    fix j assume "j < length ys"
    with Cons.prems [rule_format, of "Suc j"] show "fst (download_copernicus sys bb (ys ! j)
            (fold (\<lambda>year v. snd (download_copernicus sys bb year v)) (take j ys)
               (snd (download_copernicus sys bb y w)))) = Inr True"
      by simp
  qed
  from Cons.IH [OF this] h show ?case
    by (cases "download_copernicus sys bb y w") simp
qed

lemma run_loop_first_failure:
  assumes "k < length ys"
    and "\<forall>j < k.
     fst (download_copernicus sys bb (ys ! j)
            (fold (\<lambda>year v. snd (download_copernicus sys bb year v)) (take j ys) w)) = Inr True"
    and "fst (download_copernicus sys bb (ys ! k)
            (fold (\<lambda>year v. snd (download_copernicus sys bb year v)) (take k ys) w)) = Inr False"
  shows "run_loop sys bb ys w =
     (Inl (Exception (''Failed to download Copernicus data for '' @ str_int (ys ! k))),
      fold (\<lambda>year v. snd (download_copernicus sys bb year v)) (take (Suc k) ys) w)"
  using assms
proof (induction ys arbitrary: w k)
  case Nil
  then show ?case by simp
next
  case (Cons y ys)
  show ?case
  proof (cases k)
    case 0
    with Cons.prems(3) show ?thesis
      by (cases "download_copernicus sys bb y w") simp
  next
    case (Suc k')
    from Cons.prems(2) [rule_format, of 0] Suc
    have h: "fst (download_copernicus sys bb y w) = Inr True" by simp
    have a: "k' < length ys" using Cons.prems(1) Suc by simp
    have b: "\<forall>j < k'.
     fst (download_copernicus sys bb (ys ! j)
            (fold (\<lambda>year v. snd (download_copernicus sys bb year v)) (take j ys)
               (snd (download_copernicus sys bb y w)))) = Inr True"
    proof (intro allI impI)
      fix j assume "j < k'"
      with Cons.prems(2) [rule_format, of "Suc j"] Suc
      show "fst (download_copernicus sys bb (ys ! j)
            (fold (\<lambda>year v. snd (download_copernicus sys bb year v)) (take j ys)
               (snd (download_copernicus sys bb y w)))) = Inr True"
        by simp
    qed
    have c: "fst (download_copernicus sys bb (ys ! k')
            (fold (\<lambda>year v. snd (download_copernicus sys bb year v)) (take k' ys)
               (snd (download_copernicus sys bb y w)))) = Inr False"
      using Cons.prems(3) Suc by simp
    from Cons.IH [OF a b c] h Suc show ?thesis
      by (cases "download_copernicus sys bb y w") simp
  qed
qed

text \<open>
  Claim C5. \<open>run\<close> goes through the years 2005, 2006, 2012, 2013, 2015, 2021 in this
  order, each time with the box of latitudes 24 to 31 and longitudes -92 to -86. If the
  calls for the years before position \<open>k\<close> return \<^verbatim>\<open>True\<close> and the call for the year at
  position \<open>k\<close> returns \<^verbatim>\<open>False\<close>, \<open>run\<close> raises an exception whose message carries
  that year, and the world it leaves is the one that call left: no later year is
  attempted. If every call returns \<^verbatim>\<open>True\<close>, \<open>run\<close> returns normally after
  the call for the last year.
\<close>

theorem run_stops_at_first_failing_year:
  "years_of_run = [2005, 2006, 2012, 2013, 2015, 2021] \<and>
   boundary_box_of_run ''lat_min'' = Some 24 \<and> boundary_box_of_run ''lat_max'' = Some 31 \<and>
   boundary_box_of_run ''lon_min'' = Some (- 92) \<and> boundary_box_of_run ''lon_max'' = Some (- 86) \<and>
   dom boundary_box_of_run = {''lat_min'', ''lat_max'', ''lon_min'', ''lon_max''} \<and>
   (\<forall>k < length years_of_run.
      (\<forall>j < k. fst (download_copernicus sys boundary_box_of_run (years_of_run ! j)
                      (world_before sys w j)) = Inr True) \<and>
      fst (download_copernicus sys boundary_box_of_run (years_of_run ! k)
             (world_before sys w k)) = Inr False \<longrightarrow>
      run sys w =
        (Inl (Exception (''Failed to download Copernicus data for '' @
                           str_int (years_of_run ! k))),
         snd (download_copernicus sys boundary_box_of_run (years_of_run ! k)
                (world_before sys w k)))) \<and>
   ((\<forall>j < length years_of_run.
        fst (download_copernicus sys boundary_box_of_run (years_of_run ! j)
               (world_before sys w j)) = Inr True) \<longrightarrow>
    run sys w =
      (Inr (), logging INFO ''Completed Copernicus data download module''
                 (world_before sys w (length years_of_run))))"
proof -
  let ?w0 = "logging INFO ''Starting Copernicus data download module'' w"
  let ?step = "\<lambda>year v. snd (download_copernicus sys boundary_box_of_run year v)"
  have fail: "run sys w =
        (Inl (Exception (''Failed to download Copernicus data for '' @
                           str_int (years_of_run ! k))),
         snd (download_copernicus sys boundary_box_of_run (years_of_run ! k)
                (world_before sys w k)))"
    if k: "k < length years_of_run"
      and ok: "\<forall>j < k. fst (download_copernicus sys boundary_box_of_run (years_of_run ! j)
                      (world_before sys w j)) = Inr True"
      and bad: "fst (download_copernicus sys boundary_box_of_run (years_of_run ! k)
             (world_before sys w k)) = Inr False"
    for k
  proof -
    have "fold ?step (take (Suc k) years_of_run) ?w0 =
        snd (download_copernicus sys boundary_box_of_run (years_of_run ! k)
                (world_before sys w k))"
      using k by (simp add: take_Suc_conv_app_nth world_before_def)
    with run_loop_first_failure [OF k, of sys boundary_box_of_run ?w0] ok bad
    show ?thesis by (simp add: run_def world_before_def)
  qed
  have succ: "run sys w =
      (Inr (), logging INFO ''Completed Copernicus data download module''
                 (world_before sys w (length years_of_run)))"
    if "\<forall>j < length years_of_run.
        fst (download_copernicus sys boundary_box_of_run (years_of_run ! j)
               (world_before sys w j)) = Inr True"
    using run_loop_all_succeed [of years_of_run sys boundary_box_of_run ?w0] that
    by (simp add: run_def world_before_def)
  have d: "dom boundary_box_of_run = {''lat_min'', ''lat_max'', ''lon_min'', ''lon_max''}"
    by (auto simp: boundary_box_of_run_def split: if_splits)
  have b: "boundary_box_of_run ''lat_min'' = Some 24" "boundary_box_of_run ''lat_max'' = Some 31"
    "boundary_box_of_run ''lon_min'' = Some (- 92)" "boundary_box_of_run ''lon_max'' = Some (- 86)"
    by (simp_all add: boundary_box_of_run_def)
  have y: "years_of_run = [2005, 2006, 2012, 2013, 2015, 2021]"
    by (simp add: years_of_run_def)
  from fail succ d b y show ?thesis by blast
qed


text \<open>The tool exits with status 1: the first year fails and \<open>run\<close> raises for 2005.\<close>

theorem run_stops_at_first_failing_year_witness:
  "0 < length years_of_run \<and>
   fst (download_copernicus (sample_system (Exited 1 []) None) boundary_box_of_run
          (years_of_run ! 0) (world_before (sample_system (Exited 1 []) None) sample_world 0)) =
     Inr False \<and>
   fst (run (sample_system (Exited 1 []) None) sample_world) =
     Inl (Exception ''Failed to download Copernicus data for 2005'')"
proof -
  have k: "0 < length years_of_run" and y: "years_of_run ! 0 = 2005"
    by (simp_all add: years_of_run_def)
  have bad: "fst (download_copernicus (sample_system (Exited 1 []) None) boundary_box_of_run
          (years_of_run ! 0) (world_before (sample_system (Exited 1 []) None) sample_world 0)) =
     Inr False"
    unfolding y
    by (simp add: world_before_def run_defs boundary_box_of_run_def sample_world_def
        sample_system_def dataset_ids_def)
  have s: "str_int 2005 = ''2005''" by code_simp
  note t = run_stops_at_first_failing_year [of "sample_system (Exited 1 []) None" sample_world]
  note f = t [THEN conjunct2, THEN conjunct2, THEN conjunct2, THEN conjunct2, THEN conjunct2,
      THEN conjunct2, THEN conjunct1, rule_format, of 0]
  from f k bad have "fst (run (sample_system (Exited 1 []) None) sample_world) =
     Inl (Exception (''Failed to download Copernicus data for '' @ str_int (years_of_run ! 0)))"
    by simp
  then have "fst (run (sample_system (Exited 1 []) None) sample_world) =
     Inl (Exception ''Failed to download Copernicus data for 2005'')"
    unfolding y s by simp
  with k bad show ?thesis by blast
qed

subsection \<open>The probe \<open>dataset_has_depth\<close>\<close>

text \<open>
  Claim C8. \<open>dataset_has_depth\<close> starts exactly one process, the \<^verbatim>\<open>describe\<close> query
  for the identifier. When the query exits with status zero and its output parses to an
  object, the function returns whether \<^verbatim>\<open>depth\<close> is a key of the \<^verbatim>\<open>dimensions\<close>
  mapping of that object, and \<^verbatim>\<open>False\<close> when the object has no \<^verbatim>\<open>dimensions\<close>. It
  raises, and returns no boolean, when the query exits with another status, when starting
  it raises, when the output does not parse, and when the output parses to something that
  is not an object.
\<close>

theorem dataset_has_depth_result:
  "(subprocess_run sys (events w) [''copernicusmarine'', ''describe'', ''--dataset-id'', i] =
      Exited 0 out \<and>
    json_loads sys out = Some (JObj kvs) \<and> dict_get kvs ''dimensions'' = Some (JObj dims) \<longrightarrow>
    fst (dataset_has_depth sys i w) = Inr (''depth'' \<in> fst ` set dims)) \<and>
   (subprocess_run sys (events w) [''copernicusmarine'', ''describe'', ''--dataset-id'', i] =
      Exited 0 out \<and>
    json_loads sys out = Some (JObj kvs) \<and> dict_get kvs ''dimensions'' = None \<longrightarrow>
    fst (dataset_has_depth sys i w) = Inr False) \<and>
   (subprocess_run sys (events w) [''copernicusmarine'', ''describe'', ''--dataset-id'', i] =
      Exited rc out \<and> rc \<noteq> 0 \<longrightarrow>
    fst (dataset_has_depth sys i w) =
      Inl (CalledProcessError [''copernicusmarine'', ''describe'', ''--dataset-id'', i] rc)) \<and>
   (subprocess_run sys (events w) [''copernicusmarine'', ''describe'', ''--dataset-id'', i] =
      RunRaised msg \<longrightarrow>
    fst (dataset_has_depth sys i w) = Inl (OtherError msg)) \<and>
   (subprocess_run sys (events w) [''copernicusmarine'', ''describe'', ''--dataset-id'', i] =
      Exited 0 out \<and> json_loads sys out = None \<longrightarrow>
    fst (dataset_has_depth sys i w) = Inl JSONDecodeError) \<and>
   (subprocess_run sys (events w) [''copernicusmarine'', ''describe'', ''--dataset-id'', i] =
      Exited 0 out \<and> json_loads sys out = Some m \<and> (\<forall>kvs. m \<noteq> JObj kvs) \<longrightarrow>
    fst (dataset_has_depth sys i w) = Inl AttributeError) \<and>
   runs_of (new_events w (snd (dataset_has_depth sys i w))) =
     [([''copernicusmarine'', ''describe'', ''--dataset-id'', i],
       subprocess_run sys (events w) [''copernicusmarine'', ''describe'', ''--dataset-id'', i])]"
proof -
  let ?cmd = "[''copernicusmarine'', ''describe'', ''--dataset-id'', i]"
  let ?oc = "subprocess_run sys (events w) ?cmd"
  have 1: "fst (dataset_has_depth sys i w) = Inr (''depth'' \<in> fst ` set dims)"
    if "?oc = Exited 0 out" "json_loads sys out = Some (JObj kvs)"
      "dict_get kvs ''dimensions'' = Some (JObj dims)"
    using that by (simp add: dataset_has_depth_def subprocess_run_in_def py_in_depth_def Let_def)
  have 2: "fst (dataset_has_depth sys i w) = Inr False"
    if "?oc = Exited 0 out" "json_loads sys out = Some (JObj kvs)"
      "dict_get kvs ''dimensions'' = None"
    using that by (simp add: dataset_has_depth_def subprocess_run_in_def py_in_depth_def Let_def)
  have 3: "fst (dataset_has_depth sys i w) = Inl (CalledProcessError ?cmd rc)"
    if "?oc = Exited rc out" "rc \<noteq> 0"
    using that by (simp add: dataset_has_depth_def subprocess_run_in_def Let_def)
  have 4: "fst (dataset_has_depth sys i w) = Inl (OtherError msg)"
    if "?oc = RunRaised msg"
    using that by (simp add: dataset_has_depth_def subprocess_run_in_def Let_def)
  have 5: "fst (dataset_has_depth sys i w) = Inl JSONDecodeError"
    if "?oc = Exited 0 out" "json_loads sys out = None"
    using that by (simp add: dataset_has_depth_def subprocess_run_in_def Let_def)
  have 6: "fst (dataset_has_depth sys i w) = Inl AttributeError"
    if "?oc = Exited 0 out" "json_loads sys out = Some m" "\<forall>kvs. m \<noteq> JObj kvs"
    using that by (cases m) (simp_all add: dataset_has_depth_def subprocess_run_in_def Let_def)
  have 7: "runs_of (new_events w (snd (dataset_has_depth sys i w))) = [(?cmd, ?oc)]"
    by (simp add: dataset_has_depth_def subprocess_run_in_def new_events_def Let_def
        split: proc_outcome.splits option.splits json.splits)
  from 1 2 3 4 5 6 7 show ?thesis by blast
qed

text \<open>A describe output with a depth dimension, and a query that exits with status 2.\<close>

theorem dataset_has_depth_result_witness:
  "subprocess_run (sample_system (Exited 0 ''{}'')
       (Some (JObj [(''dimensions'', JObj [(''time'', JNull), (''depth'', JNull)])])))
     (events sample_world) [''copernicusmarine'', ''describe'', ''--dataset-id'', ''x''] =
     Exited 0 ''{}'' \<and>
   fst (dataset_has_depth (sample_system (Exited 0 ''{}'')
       (Some (JObj [(''dimensions'', JObj [(''time'', JNull), (''depth'', JNull)])])))
     ''x'' sample_world) = Inr True \<and>
   subprocess_run (sample_system (Exited 2 []) None)
     (events sample_world) [''copernicusmarine'', ''describe'', ''--dataset-id'', ''x''] =
     Exited 2 [] \<and>
   fst (dataset_has_depth (sample_system (Exited 2 []) None) ''x'' sample_world) =
     Inl (CalledProcessError [''copernicusmarine'', ''describe'', ''--dataset-id'', ''x''] 2)"
proof -
  let ?s = "sample_system (Exited 0 ''{}'')
       (Some (JObj [(''dimensions'', JObj [(''time'', JNull), (''depth'', JNull)])]))"
  have a: "subprocess_run ?s (events sample_world)
      [''copernicusmarine'', ''describe'', ''--dataset-id'', ''x''] = Exited 0 ''{}''"
    by (simp add: sample_system_def)
  have b: "json_loads ?s ''{}'' =
      Some (JObj [(''dimensions'', JObj [(''time'', JNull), (''depth'', JNull)])])"
    by (simp add: sample_system_def)
  have c: "dict_get [(''dimensions'', JObj [(''time'', JNull), (''depth'', JNull)])]
      ''dimensions'' = Some (JObj [(''time'', JNull), (''depth'', JNull)])"
    by (simp add: dict_get_def)
  have d: "subprocess_run (sample_system (Exited 2 []) None) (events sample_world)
      [''copernicusmarine'', ''describe'', ''--dataset-id'', ''x''] = Exited 2 []"
    by (simp add: sample_system_def)
  have e: "(2::int) \<noteq> 0" by simp
  have "fst (dataset_has_depth ?s ''x'' sample_world) =
      Inr (''depth'' \<in> fst ` set [(''time'', JNull), (''depth'', JNull)])"
    using dataset_has_depth_result [of ?s sample_world "''x''" "''{}''"
        "[(''dimensions'', JObj [(''time'', JNull), (''depth'', JNull)])]"
        "[(''time'', JNull), (''depth'', JNull)]"] a b c
    by blast
  then have t: "fst (dataset_has_depth ?s ''x'' sample_world) = Inr True" by simp
  have f: "fst (dataset_has_depth (sample_system (Exited 2 []) None) ''x'' sample_world) =
     Inl (CalledProcessError [''copernicusmarine'', ''describe'', ''--dataset-id'', ''x''] 2)"
    using dataset_has_depth_result [of "sample_system (Exited 2 []) None" sample_world "''x''"
        _ _ _ 2 "[]"] d e
    by blast
  from a t d f show ?thesis by blast
qed

subsection \<open>Directories and commands, in order\<close>

lemma loop_trace_dirs_made:
  "loop_trace dir cmd ids acts r \<Longrightarrow>
   dirs_made acts =
     (\<Union>i \<in> set (take (length (runs_of acts)) ids). set (path_prefixes [] (dir i)))"
  by (induction rule: loop_trace.induct) simp_all

lemma path_join_data:
  "i \<in> set (dataset_ids year) \<Longrightarrow> path_join ''data'' i = ''data/'' @ i"
  by (auto simp: dataset_ids_def path_join_def split: if_splits)

lemma path_prefixes_data:
  "i \<in> set (dataset_ids year) \<Longrightarrow>
   set (path_prefixes [] (''data/'' @ i)) = {''data'', ''data/'' @ i}"
  by (auto simp: dataset_ids_def split: if_splits)

lemma map_zip_cong:
  assumes "\<And>i oc. i \<in> set ids \<Longrightarrow> f i oc = g i oc"
  shows "map (\<lambda>(i, oc). f i oc) (zip ids ocs) = map (\<lambda>(i, oc). g i oc) (zip ids ocs)"
  using assms by (auto dest: set_zip_leftD)

text \<open>
  Claim C7. With a boundary box that has its four fields and both credentials set, what
  a call does besides logging is, for the datasets of the year in order and as far as
  the loop gets: create \<^verbatim>\<open>data/<dataset_id>\<close>, then start the subset command, whose
  arguments are exactly the documented ones in the documented order. The directories
  afterwards are those from before together with \<^verbatim>\<open>data\<close> and \<^verbatim>\<open>data/<dataset_id>\<close>
  of each dataset whose command was started; a directory that was there already stays.
\<close>

theorem mkdir_then_documented_command:
  assumes "boundary_box ''lat_min'' = Some la_min" and "boundary_box ''lat_max'' = Some la_max"
    and "boundary_box ''lon_min'' = Some lo_min" and "boundary_box ''lon_max'' = Some lo_max"
    and "environ w ''CMEMS_USERNAME'' = Some u" and "environ w ''CMEMS_PASSWORD'' = Some p"
  shows
    "actions_of (new_events w (snd (download_copernicus sys boundary_box year w))) =
       concat (map (\<lambda>(i, oc).
           [MkDir (''data/'' @ i),
            Run [''copernicusmarine'', ''subset'',
                 ''--dataset-id='' @ i,
                 ''--minimum-longitude'', py_str sys lo_min,
                 ''--maximum-longitude'', py_str sys lo_max,
                 ''--minimum-latitude'', py_str sys la_min,
                 ''--maximum-latitude'', py_str sys la_max,
                 ''--file-format'', ''netcdf'',
                 ''--output-directory'', ''data/'' @ i,
                 ''--start-datetime'', str_int year @ ''-08-01T00:00:00'',
                 ''--end-datetime'', str_int year @ ''-10-31T23:59:59'',
                 ''--overwrite'',
                 ''--username'', u,
                 ''--password'', p,
                 ''--minimum-depth'',
                 (if i = ''cmems_mod_glo_bgc_my_0.25deg_P1D-m''
                  then ''0.5057600140571594'' else ''0.49402499198913574''),
                 ''--maximum-depth'',
                 (if i = ''cmems_mod_glo_bgc_my_0.25deg_P1D-m''
                  then ''0.5057600140571594'' else ''0.49402499198913574'')] oc])
         (zip (dataset_ids year)
            (map snd (runs_of (new_events w
               (snd (download_copernicus sys boundary_box year w))))))) \<and>
     dirs (snd (download_copernicus sys boundary_box year w)) =
       dirs w \<union>
       (\<Union>i \<in> set (take (length (runs_of (new_events w
                   (snd (download_copernicus sys boundary_box year w))))) (dataset_ids year)).
          {''data'', ''data/'' @ i})"
proof -
  obtain r w' where eq: "download_copernicus sys boundary_box year w = (r, w')"
    by (cases "download_copernicus sys boundary_box year w")
  let ?dir = "path_join ''data''"
  let ?cmd = "\<lambda>i. subset_cmd sys (locals_of la_min la_max lo_min lo_max year) i
                     (path_join ''data'' i) u p"
  from download_copernicus_trace [OF assms eq]
  obtain evs where ev: "events w' = events w @ evs"
    and d: "dirs w' = dirs w \<union> dirs_made evs"
    and lt: "loop_trace ?dir ?cmd (dataset_ids year) (actions_of evs) r"
    by blast
  have ne: "new_events w w' = evs" by (rule new_events_append [OF ev])
  let ?ocs = "map snd (runs_of evs)"
  have "actions_of evs =
      concat (map (\<lambda>(i, oc). [MkDir (?dir i), Run (?cmd i) oc]) (zip (dataset_ids year) ?ocs))"
    using loop_trace_actions [OF lt] by (simp add: runs_of_actions_of)
  also have "map (\<lambda>(i, oc). [MkDir (?dir i), Run (?cmd i) oc]) (zip (dataset_ids year) ?ocs) =
      map (\<lambda>(i, oc).
           [MkDir (''data/'' @ i),
            Run [''copernicusmarine'', ''subset'',
                 ''--dataset-id='' @ i,
                 ''--minimum-longitude'', py_str sys lo_min,
                 ''--maximum-longitude'', py_str sys lo_max,
                 ''--minimum-latitude'', py_str sys la_min,
                 ''--maximum-latitude'', py_str sys la_max,
                 ''--file-format'', ''netcdf'',
                 ''--output-directory'', ''data/'' @ i,
                 ''--start-datetime'', str_int year @ ''-08-01T00:00:00'',
                 ''--end-datetime'', str_int year @ ''-10-31T23:59:59'',
                 ''--overwrite'',
                 ''--username'', u,
                 ''--password'', p,
                 ''--minimum-depth'',
                 (if i = ''cmems_mod_glo_bgc_my_0.25deg_P1D-m''
                  then ''0.5057600140571594'' else ''0.49402499198913574''),
                 ''--maximum-depth'',
                 (if i = ''cmems_mod_glo_bgc_my_0.25deg_P1D-m''
                  then ''0.5057600140571594'' else ''0.49402499198913574'')] oc])
        (zip (dataset_ids year) ?ocs)"
    by (rule map_zip_cong) (simp add: path_join_data subset_cmd_def locals_of_def)
  finally have a: "actions_of evs = concat (map (\<lambda>(i, oc).
           [MkDir (''data/'' @ i),
            Run [''copernicusmarine'', ''subset'',
                 ''--dataset-id='' @ i,
                 ''--minimum-longitude'', py_str sys lo_min,
                 ''--maximum-longitude'', py_str sys lo_max,
                 ''--minimum-latitude'', py_str sys la_min,
                 ''--maximum-latitude'', py_str sys la_max,
                 ''--file-format'', ''netcdf'',
                 ''--output-directory'', ''data/'' @ i,
                 ''--start-datetime'', str_int year @ ''-08-01T00:00:00'',
                 ''--end-datetime'', str_int year @ ''-10-31T23:59:59'',
                 ''--overwrite'',
                 ''--username'', u,
                 ''--password'', p,
                 ''--minimum-depth'',
                 (if i = ''cmems_mod_glo_bgc_my_0.25deg_P1D-m''
                  then ''0.5057600140571594'' else ''0.49402499198913574''),
                 ''--maximum-depth'',
                 (if i = ''cmems_mod_glo_bgc_my_0.25deg_P1D-m''
                  then ''0.5057600140571594'' else ''0.49402499198913574'')] oc])
        (zip (dataset_ids year) ?ocs))" .
  have "dirs_made evs =
      (\<Union>i \<in> set (take (length (runs_of evs)) (dataset_ids year)).
         set (path_prefixes [] (?dir i)))"
    using loop_trace_dirs_made [OF lt] by (simp add: runs_of_actions_of dirs_made_actions_of)
  also have "\<dots> = (\<Union>i \<in> set (take (length (runs_of evs)) (dataset_ids year)).
         {''data'', ''data/'' @ i})"
  proof (rule SUP_cong [OF refl])
    fix i assume "i \<in> set (take (length (runs_of evs)) (dataset_ids year))"
    then have i: "i \<in> set (dataset_ids year)" by (rule in_set_takeD)
    show "set (path_prefixes [] (?dir i)) = {''data'', ''data/'' @ i}"
      by (simp only: path_join_data [OF i] path_prefixes_data [OF i])
  qed
  finally have b: "dirs_made evs = (\<Union>i \<in> set (take (length (runs_of evs)) (dataset_ids year)).
         {''data'', ''data/'' @ i})" .
  show ?thesis
    unfolding eq snd_conv ne using a b d by simp
qed


text \<open>A successful call for 2021 in the sample world, which has no directory yet.\<close>

lemma outcomes_sample:
  "map snd (runs_of (new_events sample_world
     (snd (download_copernicus (sample_system (Exited 0 []) None) boundary_box_of_run 2021
          sample_world)))) = [Exited 0 [], Exited 0 []]"
  by (simp add: run_defs boundary_box_of_run_def sample_world_def sample_system_def
      dataset_ids_def)

theorem mkdir_then_documented_command_witness:
  "boundary_box_of_run ''lat_min'' = Some 24 \<and> boundary_box_of_run ''lat_max'' = Some 31 \<and>
   boundary_box_of_run ''lon_min'' = Some (- 92) \<and> boundary_box_of_run ''lon_max'' = Some (- 86) \<and>
   environ sample_world ''CMEMS_USERNAME'' = Some ''user'' \<and>
   environ sample_world ''CMEMS_PASSWORD'' = Some ''secret'' \<and>
   dirs (snd (download_copernicus (sample_system (Exited 0 []) None) boundary_box_of_run 2021
          sample_world)) =
     {''data'', ''data/cmems_mod_glo_phy_myint_0.083deg_P1D-m'',
      ''data/cmems_mod_glo_bgc_my_0.25deg_P1D-m''}"
proof -
  have b: "boundary_box_of_run ''lat_min'' = Some 24" "boundary_box_of_run ''lat_max'' = Some 31"
    "boundary_box_of_run ''lon_min'' = Some (- 92)" "boundary_box_of_run ''lon_max'' = Some (- 86)"
    by (simp_all add: boundary_box_of_run_def)
  have c: "environ sample_world ''CMEMS_USERNAME'' = Some ''user''"
    "environ sample_world ''CMEMS_PASSWORD'' = Some ''secret''"
    by (simp_all add: sample_world_def)
  have l: "length (runs_of (new_events sample_world
     (snd (download_copernicus (sample_system (Exited 0 []) None) boundary_box_of_run 2021
          sample_world)))) = 2"
    using arg_cong [OF outcomes_sample, of length] by simp
  have e: "dirs sample_world = {}" by (simp add: sample_world_def)
  from mkdir_then_documented_command [OF b c, of "sample_system (Exited 0 []) None" 2021,
      THEN conjunct2]
  have "dirs (snd (download_copernicus (sample_system (Exited 0 []) None) boundary_box_of_run 2021
          sample_world)) =
     {''data'', ''data/cmems_mod_glo_phy_myint_0.083deg_P1D-m'',
      ''data/cmems_mod_glo_bgc_my_0.25deg_P1D-m''}"
    unfolding l e by (simp add: dataset_ids_def insert_commute)
  with b c show ?thesis by blast
qed

text \<open>
  Claim C10. When a call with a complete boundary box and both credentials returns
  \<^verbatim>\<open>False\<close>, a process was started, the last one started is the command of the dataset
  at that position of the year's list and it did not exit with status zero, and the
  directory \<^verbatim>\<open>data/<dataset_id>\<close> of that dataset and of every dataset before it is among
  the directories the call leaves behind. In the trace each directory is created
  immediately before the command of its dataset is started.
\<close>

theorem failed_download_leaves_directories:
  assumes "boundary_box ''lat_min'' = Some la_min" and "boundary_box ''lat_max'' = Some la_max"
    and "boundary_box ''lon_min'' = Some lo_min" and "boundary_box ''lon_max'' = Some lo_max"
    and "environ w ''CMEMS_USERNAME'' = Some u" and "environ w ''CMEMS_PASSWORD'' = Some p"
    and "fst (download_copernicus sys boundary_box year w) = Inr False"
  shows
    "runs_of (new_events w (snd (download_copernicus sys boundary_box year w))) \<noteq> [] \<and>
     length (runs_of (new_events w (snd (download_copernicus sys boundary_box year w))))
       \<le> length (dataset_ids year) \<and>
     \<not> exit_ok (snd (last (runs_of (new_events w
            (snd (download_copernicus sys boundary_box year w)))))) \<and>
     fst (last (runs_of (new_events w (snd (download_copernicus sys boundary_box year w))))) =
       subset_cmd sys (locals_of la_min la_max lo_min lo_max year)
         (dataset_ids year ! (length (runs_of (new_events w
            (snd (download_copernicus sys boundary_box year w)))) - 1))
         (''data/'' @ dataset_ids year ! (length (runs_of (new_events w
            (snd (download_copernicus sys boundary_box year w)))) - 1)) u p \<and>
     (\<forall>j < length (runs_of (new_events w (snd (download_copernicus sys boundary_box year w)))).
        ''data/'' @ dataset_ids year ! j
          \<in> dirs (snd (download_copernicus sys boundary_box year w))) \<and>
     actions_of (new_events w (snd (download_copernicus sys boundary_box year w))) =
       concat (map (\<lambda>(i, oc).
           [MkDir (''data/'' @ i),
            Run (subset_cmd sys (locals_of la_min la_max lo_min lo_max year) i
                   (''data/'' @ i) u p) oc])
         (zip (dataset_ids year)
            (map snd (runs_of (new_events w
               (snd (download_copernicus sys boundary_box year w)))))))"
proof -
  obtain r w' where eq: "download_copernicus sys boundary_box year w = (r, w')"
    by (cases "download_copernicus sys boundary_box year w")
  with assms(7) have r: "r = Inr False" by simp
  let ?ids = "dataset_ids year"
  let ?dir = "path_join ''data''"
  let ?cmd = "\<lambda>i. subset_cmd sys (locals_of la_min la_max lo_min lo_max year) i
                     (path_join ''data'' i) u p"
  from download_copernicus_trace [OF assms(1-6) eq]
  obtain evs where ev: "events w' = events w @ evs"
    and d: "dirs w' = dirs w \<union> dirs_made evs"
    and lt: "loop_trace ?dir ?cmd ?ids (actions_of evs) r"
    by blast
  have ne: "new_events w w' = evs" by (rule new_events_append [OF ev])
  let ?rs = "runs_of evs"
  let ?n = "length ?rs"
  have rs: "runs_of (actions_of evs) = ?rs" by (rule runs_of_actions_of)
  from loop_trace_False [OF lt] r have nonempty: "?rs \<noteq> []"
    and bad: "\<not> exit_ok (snd (last ?rs))"
    unfolding rs by simp_all
  from loop_trace_length [OF lt] have len: "?n \<le> length ?ids" unfolding rs .
  from nonempty have pos: "0 < ?n" by simp
  have cmds: "map fst ?rs = map ?cmd (take ?n ?ids)"
    using loop_trace_cmds [OF lt] unfolding rs .
  have mem: "?ids ! j \<in> set (take ?n ?ids)" if "j < ?n" for j
  proof -
    from that len have "j < length (take ?n ?ids)" by simp
    then have "take ?n ?ids ! j \<in> set (take ?n ?ids)" by (rule nth_mem)
    with that show ?thesis by simp
  qed
  have "fst (last ?rs) = map fst ?rs ! (?n - 1)"
    using nonempty pos by (simp add: last_conv_nth)
  also have "\<dots> = ?cmd (?ids ! (?n - 1))"
    unfolding cmds using pos len by simp
  also have "\<dots> = subset_cmd sys (locals_of la_min la_max lo_min lo_max year)
         (?ids ! (?n - 1)) (''data/'' @ ?ids ! (?n - 1)) u p"
    using path_join_data [OF in_set_takeD [OF mem [of "?n - 1"]]] pos by simp
  finally have lastcmd: "fst (last ?rs) =
      subset_cmd sys (locals_of la_min la_max lo_min lo_max year)
         (?ids ! (?n - 1)) (''data/'' @ ?ids ! (?n - 1)) u p" .
  have made: "''data/'' @ ?ids ! j \<in> dirs w'" if "j < ?n" for j
  proof -
    from mem [OF that] have m: "?ids ! j \<in> set (take (length (runs_of (actions_of evs))) ?ids)"
      unfolding rs .
    from loop_trace_dirs [OF lt m] have "?dir (?ids ! j) \<in> dirs_made evs"
      by (simp add: dirs_made_actions_of)
    with d path_join_data [OF in_set_takeD [OF mem [OF that]]] show ?thesis by simp
  qed
  have "actions_of evs =
      concat (map (\<lambda>(i, oc). [MkDir (?dir i), Run (?cmd i) oc]) (zip ?ids (map snd ?rs)))"
    using loop_trace_actions [OF lt] unfolding rs by simp
  also have "map (\<lambda>(i, oc). [MkDir (?dir i), Run (?cmd i) oc]) (zip ?ids (map snd ?rs)) =
      map (\<lambda>(i, oc).
           [MkDir (''data/'' @ i),
            Run (subset_cmd sys (locals_of la_min la_max lo_min lo_max year) i
                   (''data/'' @ i) u p) oc])
        (zip ?ids (map snd ?rs))"
    by (rule map_zip_cong) (simp add: path_join_data)
  finally have acts: "actions_of evs =
      concat (map (\<lambda>(i, oc).
           [MkDir (''data/'' @ i),
            Run (subset_cmd sys (locals_of la_min la_max lo_min lo_max year) i
                   (''data/'' @ i) u p) oc])
        (zip ?ids (map snd ?rs)))" .
  show ?thesis
    unfolding eq snd_conv ne using nonempty len bad lastcmd made acts by blast
qed

text \<open>The tool cannot be started: the call returns \<^verbatim>\<open>False\<close>, the first directory exists.\<close>

theorem failed_download_leaves_directories_witness:
  "boundary_box_of_run ''lat_min'' = Some 24 \<and> boundary_box_of_run ''lat_max'' = Some 31 \<and>
   boundary_box_of_run ''lon_min'' = Some (- 92) \<and> boundary_box_of_run ''lon_max'' = Some (- 86) \<and>
   environ sample_world ''CMEMS_USERNAME'' = Some ''user'' \<and>
   environ sample_world ''CMEMS_PASSWORD'' = Some ''secret'' \<and>
   fst (download_copernicus (sample_system (RunRaised ''No such file'') None)
          boundary_box_of_run 2005 sample_world) = Inr False \<and>
   ''data/cmems_mod_glo_phy_my_0.083deg_P1D-m''
     \<in> dirs (snd (download_copernicus (sample_system (RunRaised ''No such file'') None)
          boundary_box_of_run 2005 sample_world))"
proof -
  have b: "boundary_box_of_run ''lat_min'' = Some 24" "boundary_box_of_run ''lat_max'' = Some 31"
    "boundary_box_of_run ''lon_min'' = Some (- 92)" "boundary_box_of_run ''lon_max'' = Some (- 86)"
    by (simp_all add: boundary_box_of_run_def)
  have c: "environ sample_world ''CMEMS_USERNAME'' = Some ''user''"
    "environ sample_world ''CMEMS_PASSWORD'' = Some ''secret''"
    by (simp_all add: sample_world_def)
  have f: "fst (download_copernicus (sample_system (RunRaised ''No such file'') None)
          boundary_box_of_run 2005 sample_world) = Inr False"
    by (simp add: run_defs boundary_box_of_run_def sample_world_def sample_system_def
        dataset_ids_def)
  note t = failed_download_leaves_directories [OF b c f]
  from t have pos: "0 < length (runs_of (new_events sample_world
      (snd (download_copernicus (sample_system (RunRaised ''No such file'') None)
          boundary_box_of_run 2005 sample_world))))"
    by simp
  have i: "dataset_ids 2005 ! 0 = ''cmems_mod_glo_phy_my_0.083deg_P1D-m''"
    by (simp add: dataset_ids_def)
  from t [THEN conjunct2, THEN conjunct2, THEN conjunct2, THEN conjunct2, THEN conjunct1,
      rule_format, OF pos]
  have "''data/cmems_mod_glo_phy_my_0.083deg_P1D-m''
     \<in> dirs (snd (download_copernicus (sample_system (RunRaised ''No such file'') None)
          boundary_box_of_run 2005 sample_world))"
    unfolding i by simp
  with b c f show ?thesis by blast
qed

end
